theory Spec2Isabelle
  imports Main
begin

section \<open>Data model (types.ts)\<close>

text \<open>
  JavaScript numbers that hold milliseconds, counts and retry parameters are modelled as
  \<open>int\<close>; the one non-finite value the code tests for, \<open>Number.POSITIVE_INFINITY\<close> as an
  expiry, is the constructor \<open>Never\<close>. Timestamps (\<open>new Date().toISOString()\<close>) are the
  clock reading itself.
\<close>

datatype expiry = At int | Never

record 'v cache_entry =
  entry_value :: 'v
  expiresAt :: expiry

record cache_metrics =
  hits :: nat
  misses :: nat
  stale :: nat

record retry_options =
  retries :: int
  factor :: int
  minTimeoutMs :: int
  maxTimeoutMs :: int

record governor_config =
  apiKey :: "string option"
  endpoint :: string
  timeoutMs :: int
  retry :: retry_options
  cacheTTL :: int
  cfg_offline :: bool
  storageKeyPrefix :: string
  enableAuditLog :: bool

text \<open>
  Rules and policies travel through the instance unread; their optional fields
  (\<open>description\<close>, \<open>priority\<close>, \<open>tags\<close>, \<open>metadata\<close>) are left out.
\<close>

record rule_definition =
  rule_id :: string
  expression :: string

record policy_definition =
  policy_id :: string
  version :: string
  rules :: "rule_definition list"

record rulepack =
  pack_id :: string
  checksum :: string
  updatedAt :: string
  policies :: "policy_definition list"
  ttlSeconds :: "int option"

text \<open>A match of the sensitive-data detector: kind, matched text, index.\<close>

type_synonym pii_match = "string \<times> string \<times> nat"

text \<open>
  \<open>input\<close> is \<open>unknown\<close>: a string, a value that \<open>JSON.stringify\<close> can serialise, or one it
  throws on (a \<open>BigInt\<close>, a cyclic object), with the message of what it throws.
\<close>

datatype payload_input = Text string | Structured string | Unserialisable string

record payload_options =
  offline :: "bool option"
  audit :: "bool option"

record evaluation_payload =
  policyId :: string
  payload_input :: payload_input
  eval_context :: "(string \<times> string) list option"
  options :: "payload_options option"

datatype decision = Allow | Deny | Review

text \<open>Values of the open records (\<open>Record<string, unknown>\<close>) the code builds.\<close>

datatype jvalue =
  JBool bool
  | JNum int
  | JStr string
  | JDecision decision
  | JScore "int option"
  | JMatches "pii_match list"
  | JMetrics cache_metrics

record evaluation_result =
  res_policyId :: string
  res_decision :: decision
  score :: "int option"
  reasons :: "string list option"
  metadata :: "(string \<rightharpoonup> jvalue) option"
  evaluatedAt :: int

text \<open>
  An offline event is the tagged union of the source: the tag \<open>type\<close> and the payload it
  announces are one constructor, followed by \<open>createdAt\<close>.
\<close>

datatype offline_event =
  Evaluation evaluation_payload int
  | Policy_update "policy_definition list" int

record audit_record =
  audit_id :: string
  timestamp :: int
  action :: string
  audit_payload :: "string \<rightharpoonup> jvalue"

text \<open>
  The error classes of types.ts. \<open>GovernorError message code\<close> is the base class; the four
  subclasses fix their code. \<open>RawError\<close> is any exception that is not a
  \<open>GovernorError\<close>: what \<open>fetch\<close>, \<open>response.json()\<close>, \<open>JSON.parse\<close> or the inflater throw.
\<close>

datatype error =
  GovernorError string string
  | NetworkError string
  | TimeoutError string
  | PolicyError string
  | StorageError string
  | RawError string

fun code :: "error \<Rightarrow> string option" where
  "code (GovernorError m c) = Some c"
| "code (NetworkError m) = Some ''network_error''"
| "code (TimeoutError m) = Some ''timeout_error''"
| "code (PolicyError m) = Some ''policy_error''"
| "code (StorageError m) = Some ''storage_error''"
| "code (RawError m) = None"

fun instanceof_NetworkError :: "error \<Rightarrow> bool" where
  "instanceof_NetworkError (NetworkError m) = True"
| "instanceof_NetworkError e = False"

section \<open>Storage driver (storage.ts)\<close>

text \<open>
  The driver is modelled as one keyed store of entries: the Node driver's module map and
  its files hold the same entry after every \<open>setItem\<close>, and the browser driver has one
  store. Filesystem and IndexedDB failures are outside the model: in the code they are
  not caught, and escape from the operation that reads or writes.
\<close>

type_synonym 'v store = "string \<rightharpoonup> 'v cache_entry"

definition serialize :: "int \<Rightarrow> 'v \<Rightarrow> int option \<Rightarrow> 'v cache_entry" where
  "serialize t v ttl =
     \<lparr>entry_value = v, expiresAt = (case ttl of None \<Rightarrow> Never | Some ms \<Rightarrow> At (t + ms))\<rparr>"

definition storage_isExpired :: "int \<Rightarrow> 'v cache_entry option \<Rightarrow> bool" where
  "storage_isExpired t entry =
     (case entry of
        None \<Rightarrow> True
      | Some e \<Rightarrow> (case expiresAt e of Never \<Rightarrow> False | At x \<Rightarrow> x < t))"

definition getPrefixedKey :: "string \<Rightarrow> string \<Rightarrow> string" where
  "getPrefixedKey prefix key = prefix @ '':'' @ key"

definition getItem :: "string \<Rightarrow> int \<Rightarrow> string \<Rightarrow> 'v store \<Rightarrow> 'v option \<times> 'v store" where
  "getItem prefix t key s =
     (let namespaced = getPrefixedKey prefix key in
      case s namespaced of
        None \<Rightarrow> (None, s)
      | Some e \<Rightarrow>
          if storage_isExpired t (Some e) then (None, s(namespaced := None))
          else (Some (entry_value e), s))"

definition setItem :: "string \<Rightarrow> int \<Rightarrow> string \<Rightarrow> 'v \<Rightarrow> int option \<Rightarrow> 'v store \<Rightarrow> 'v store" where
  "setItem prefix t key v ttl s = s(getPrefixedKey prefix key \<mapsto> serialize t v ttl)"

definition removeItem :: "string \<Rightarrow> string \<Rightarrow> 'v store \<Rightarrow> 'v store" where
  "removeItem prefix key s = s(getPrefixedKey prefix key := None)"

section \<open>Keyed cache (cache.ts)\<close>

text \<open>
  \<open>CacheManager\<close> holds a reference to the storage driver; here every operation takes the
  store (with the driver's prefix) and returns it updated. \<open>t\<close> is the reading of \<open>now()\<close>.
\<close>

record 'v cache_manager =
  namespace :: string
  ttlMs :: int
  memory :: "string \<rightharpoonup> 'v cache_entry"
  metrics :: cache_metrics

definition cache_isExpired :: "int \<Rightarrow> 'v cache_entry \<Rightarrow> bool" where
  "cache_isExpired t entry = (case expiresAt entry of Never \<Rightarrow> False | At x \<Rightarrow> x \<le> t)"

definition promote ::
  "string \<Rightarrow> int \<Rightarrow> string \<Rightarrow> 'v cache_manager \<times> 'v store
     \<Rightarrow> 'v option \<times> 'v cache_manager \<times> 'v store" where
  \<comment> \<open>the second half of \<open>get\<close>: the durable tier, and the promotion of what it returns\<close>
  "promote prefix t key cs =
     (let c = fst cs in
      case getItem prefix t (namespace c @ '':'' @ key) (snd cs) of
        (None, s1) \<Rightarrow>
          (None, c\<lparr>metrics := (metrics c)\<lparr>misses := misses (metrics c) + 1\<rparr>\<rparr>, s1)
      | (Some persisted, s1) \<Rightarrow>
          (Some persisted,
           c\<lparr>metrics := (metrics c)\<lparr>hits := hits (metrics c) + 1\<rparr>,
             memory := (memory c)(key \<mapsto>
               \<lparr>entry_value = persisted, expiresAt = At (t + ttlMs c)\<rparr>)\<rparr>,
           s1))"

definition cache_get ::
  "string \<Rightarrow> int \<Rightarrow> string \<Rightarrow> 'v cache_manager \<times> 'v store
     \<Rightarrow> 'v option \<times> 'v cache_manager \<times> 'v store" where
  "cache_get prefix t key cs =
     (let c = fst cs; s = snd cs in
      case memory c key of
        None \<Rightarrow> promote prefix t key (c, s)
      | Some record \<Rightarrow>
          if \<not> cache_isExpired t record then
            (Some (entry_value record),
             c\<lparr>metrics := (metrics c)\<lparr>hits := hits (metrics c) + 1\<rparr>\<rparr>, s)
          else
            promote prefix t key
              (c\<lparr>metrics := (metrics c)\<lparr>stale := stale (metrics c) + 1\<rparr>,
                 memory := (memory c)(key := None)\<rparr>, s))"

text \<open>
  The condition of the first branch of \<open>get\<close>: the in-process tier holds a live record for
  the key, so the durable tier is not consulted.
\<close>

definition memory_hit :: "int \<Rightarrow> string \<Rightarrow> 'v cache_manager \<Rightarrow> bool" where
  "memory_hit t key c =
     (case memory c key of None \<Rightarrow> False | Some record \<Rightarrow> \<not> cache_isExpired t record)"

definition cache_set ::
  "string \<Rightarrow> int \<Rightarrow> string \<Rightarrow> 'v \<Rightarrow> int option \<Rightarrow> 'v cache_manager \<times> 'v store
     \<Rightarrow> 'v cache_manager \<times> 'v store" where
  "cache_set prefix t key v ttl cs =
     (let c = fst cs; s = snd cs;
          life = (case ttl of None \<Rightarrow> ttlMs c | Some ms \<Rightarrow> ms);
          entry = \<lparr>entry_value = v, expiresAt = At (t + life)\<rparr>
      in (c\<lparr>memory := (memory c)(key \<mapsto> entry)\<rparr>,
          setItem prefix t (namespace c @ '':'' @ key) v (Some life) s))"

definition getMetrics :: "'v cache_manager \<Rightarrow> cache_metrics" where
  "getMetrics c = metrics c"

definition createRulepackCacheKey :: "(string \<Rightarrow> string) \<Rightarrow> string \<Rightarrow> string \<Rightarrow> string" where
  \<comment> \<open>\<open>hash\<close> is \<open>hashString\<close> (SHA-256 of the platform), a parameter of the model\<close>
  "createRulepackCacheKey hash policy csum = hash (policy @ '':'' @ csum)"

section \<open>Transport and backoff (utils.ts)\<close>

datatype request_body = Payload_body evaluation_payload | Policies_body "policy_definition list"

record request =
  url :: string
  http_method :: string
  body :: "request_body option"
  req_timeoutMs :: "int option"

record 'd http_response =
  status :: nat
  data :: 'd

text \<open>
  What the platform does for one call of \<open>httpRequest\<close>, once the body is serialised:
  \<^item> \<open>Unavailable\<close>: \<open>ensureFetch\<close> finds no fetch implementation (a browser without
    \<open>fetch\<close>; under Node a global \<open>fetch\<close> is assumed, so \<open>node-fetch\<close> is never imported);
  \<^item> \<open>Rejected e\<close>: no response arrives, the exception \<open>e\<close> does: \<open>fetch\<close> rejects or throws,
    or loading the keep-alive agent throws;
  \<^item> \<open>Deadline\<close>: the timer of \<open>withTimeout\<close> fires before \<open>fetch\<close> settles;
  \<^item> \<open>Answered sc txt d\<close>: a response arrives with status \<open>sc\<close>; \<open>txt\<close> is what
    \<open>response.text()\<close> gives and \<open>d\<close> what reading the body in the requested
    \<open>responseType\<close> gives, each \<open>Inl e\<close> when the reader throws \<open>e\<close>.
  Headers are not modelled.
\<close>

datatype 'd fetch_result =
  Unavailable
  | Rejected string
  | Deadline
  | Answered nat "string + string" "string + 'd"

fun digits :: "nat \<Rightarrow> string" where
  "digits n =
     (if n < 10 then [char_of (48 + n)] else digits (n div 10) @ [char_of (48 + n mod 10)])"

declare digits.simps [simp del]

definition stringify_error :: "request \<Rightarrow> string option" where
  \<comment> \<open>what \<open>JSON.stringify(options.body)\<close> throws, when the body is serialised and it throws\<close>
  "stringify_error opts =
     (case body opts of
        None \<Rightarrow> None
      | Some b \<Rightarrow>
          if http_method opts = ''GET'' then None
          else
            (case b of
               Payload_body payload \<Rightarrow>
                 (case payload_input payload of
                    Unserialisable e \<Rightarrow> Some e
                  | Text txt \<Rightarrow> None
                  | Structured other \<Rightarrow> None)
             | Policies_body ps \<Rightarrow> None))"

definition httpRequest :: "request \<Rightarrow> 'd fetch_result \<Rightarrow> error + 'd http_response" where
  "httpRequest opts outcome =
     (case outcome of
        Unavailable \<Rightarrow> Inl (NetworkError ''Fetch API is not available in this environment'')
      | Rejected e \<Rightarrow>
          (case stringify_error opts of
             Some thrown \<Rightarrow> Inl (RawError thrown)
           | None \<Rightarrow> Inl (RawError e))
      | Deadline \<Rightarrow>
          (case stringify_error opts of
             Some thrown \<Rightarrow> Inl (RawError thrown)
           | None \<Rightarrow> Inl (TimeoutError (''Request to '' @ url opts @ '' timed out'')))
      | Answered sc txt d \<Rightarrow>
          (case stringify_error opts of
             Some thrown \<Rightarrow> Inl (RawError thrown)
           | None \<Rightarrow>
               if \<not> (200 \<le> sc \<and> sc \<le> 299) then
                 (case txt of
                    Inl e \<Rightarrow> Inl (RawError e)
                  | Inr t \<Rightarrow> Inl (NetworkError (''HTTP '' @ digits sc @ '': '' @ t)))
               else
                 (case d of
                    Inl e \<Rightarrow> Inl (RawError e)
                  | Inr v \<Rightarrow> Inr \<lparr>status = sc, data = v\<rparr>)))"

definition exponentialBackoff :: "nat \<Rightarrow> retry_options \<Rightarrow> int" where
  \<comment> \<open>the delay handed to \<open>delay\<close>\<close>
  "exponentialBackoff attempt opts =
     min (maxTimeoutMs opts) (minTimeoutMs opts * factor opts ^ attempt)"

section \<open>The environment of an instance\<close>

text \<open>
  The bytes \<open>loadRulepack\<close> decodes, however it obtained them from the response (a piped
  stream, an array buffer, a string, or the response data serialised again): the JSON of a
  rulepack, the deflated JSON of one, the JSON \<open>null\<close>, or bytes that neither parse nor
  inflate.
\<close>

datatype rulepack_wire = Plain rulepack | Deflated rulepack | Null_json | Garbled string

text \<open>
  The body of an evaluation answer is the JSON of a result or \<open>null\<close> (\<open>None\<close>).
  Everything the instance reads from outside is a function of the requests made so
  far: the answer to the next request at each endpoint, the clock reading, and
  the next random identifier. The hash and the sensitive-data detector are parameters too.
\<close>

record world =
  hashString :: "string \<Rightarrow> string"
  detectPII :: "string \<Rightarrow> pii_match list"
  clock :: "request list \<Rightarrow> int"
  randomUUID :: "request list \<Rightarrow> string"
  evaluate_endpoint :: "request list \<Rightarrow> request \<Rightarrow> evaluation_result option fetch_result"
  rulepack_endpoint :: "request list \<Rightarrow> request \<Rightarrow> rulepack_wire fetch_result"
  policies_endpoint :: "request list \<Rightarrow> request \<Rightarrow> unit fetch_result"

section \<open>The Governor (Governor.ts)\<close>

text \<open>What the storage driver holds under the instance's keys.\<close>

datatype stored =
  Queue "offline_event list"
  | Audit "audit_record list"
  | Index "string \<rightharpoonup> string"
  | Pack rulepack

text \<open>
  The fields of the class, and two logs of what the instance did to its environment:
  \<open>wire\<close>, the calls of \<open>httpRequest\<close> in order, and \<open>sleeps\<close>, the backoff delays waited.
\<close>

record governor =
  config :: governor_config
  storage :: "stored store"
  rulepackCache :: "stored cache_manager"
  offlineQueue :: "offline_event list"
  auditLog :: "audit_record list"
  rulepackIndex :: "string \<rightharpoonup> string"
  isOffline :: bool
  wire :: "request list"
  sleeps :: "int list"

definition OFFLINE_QUEUE_KEY :: string where "OFFLINE_QUEUE_KEY = ''offline-queue''"
definition AUDIT_LOG_KEY :: string where "AUDIT_LOG_KEY = ''audit-log''"
definition RULEPACK_INDEX_KEY :: string where "RULEPACK_INDEX_KEY = ''rulepack-index''"

definition withPrefix :: "governor \<Rightarrow> string \<Rightarrow> string" where
  "withPrefix st key = storageKeyPrefix (config st) @ '':'' @ key"

definition setOfflineMode :: "bool \<Rightarrow> governor \<Rightarrow> governor" where
  "setOfflineMode enabled st = st\<lparr>isOffline := enabled\<rparr>"

definition persistOfflineQueue :: "int \<Rightarrow> governor \<Rightarrow> governor" where
  "persistOfflineQueue t st =
     st\<lparr>storage := setItem (storageKeyPrefix (config st)) t (withPrefix st OFFLINE_QUEUE_KEY)
                      (Queue (offlineQueue st)) None (storage st)\<rparr>"

definition enqueueOfflineEvent :: "int \<Rightarrow> offline_event \<Rightarrow> governor \<Rightarrow> governor" where
  "enqueueOfflineEvent t event st =
     persistOfflineQueue t (st\<lparr>offlineQueue := offlineQueue st @ [event]\<rparr>)"

definition appendAuditRecord :: "int \<Rightarrow> audit_record \<Rightarrow> governor \<Rightarrow> governor" where
  "appendAuditRecord t record st =
     (if \<not> enableAuditLog (config st) then st
      else
        (let pushed = auditLog st @ [record];
             kept = (if length pushed > 500 then drop (length pushed - 500) pushed else pushed)
         in st\<lparr>auditLog := kept,
               storage := setItem (storageKeyPrefix (config st)) t (withPrefix st AUDIT_LOG_KEY)
                            (Audit kept) None (storage st)\<rparr>))"

text \<open>A sequence of \<open>appendAuditRecord\<close> calls, each with its clock reading.\<close>

definition appendAll :: "(int \<times> audit_record) list \<Rightarrow> governor \<Rightarrow> governor" where
  "appendAll calls st = foldl (\<lambda>s c. appendAuditRecord (fst c) (snd c) s) st calls"

definition rulepack_life :: "governor \<Rightarrow> rulepack \<Rightarrow> int" where
  \<comment> \<open>the \<open>ttlMs\<close> that \<open>cacheRulepack\<close> computes from \<open>ttlSeconds\<close>\<close>
  "rulepack_life st pack =
     (case ttlSeconds pack of
        Some n \<Rightarrow> n
      | None \<Rightarrow> max 1 (cacheTTL (config st) div 1000)) * 1000"

definition cacheRulepack :: "world \<Rightarrow> int \<Rightarrow> string \<Rightarrow> rulepack \<Rightarrow> governor \<Rightarrow> governor" where
  "cacheRulepack w t policy pack st =
     (let life = rulepack_life st pack;
          cacheKey = createRulepackCacheKey (hashString w) policy (checksum pack);
          cs = cache_set (storageKeyPrefix (config st)) t cacheKey (Pack pack) (Some life)
                 (rulepackCache st, storage st);
          index = (rulepackIndex st)(policy \<mapsto> cacheKey)
      in st\<lparr>rulepackCache := fst cs,
            rulepackIndex := index,
            storage := setItem (storageKeyPrefix (config st)) t (withPrefix st RULEPACK_INDEX_KEY)
                         (Index index) None (snd cs)\<rparr>)"

definition getCachedRulepack :: "int \<Rightarrow> string \<Rightarrow> governor \<Rightarrow> stored option \<times> governor" where
  "getCachedRulepack t policy st =
     (case rulepackIndex st policy of
        None \<Rightarrow> (None, st)
      | Some cacheKey \<Rightarrow>
          if cacheKey = [] then (None, st)
          else
            (case cache_get (storageKeyPrefix (config st)) t cacheKey
                    (rulepackCache st, storage st) of
               (found, c, s) \<Rightarrow> (found, st\<lparr>rulepackCache := c, storage := s\<rparr>)))"

text \<open>
  The retry loop. \<open>remote\<close> answers the request given the requests made before it;
  \<open>attempt\<close> and \<open>lastError\<close> are the loop's variables.
\<close>

function requestWithRetry_loop ::
  "(request list \<Rightarrow> request \<Rightarrow> 'd fetch_result) \<Rightarrow> request \<Rightarrow> nat \<Rightarrow> error option \<Rightarrow> governor
     \<Rightarrow> (error + 'd http_response) \<times> governor" where
  "requestWithRetry_loop remote opts attempt lastError st =
     (if int attempt < retries (retry (config st)) + 1 then
        (case httpRequest opts (remote (wire st) opts) of
           Inr response \<Rightarrow>
             (Inr response, setOfflineMode False (st\<lparr>wire := wire st @ [opts]\<rparr>))
         | Inl err \<Rightarrow>
             if int (attempt + 1) \<ge> retries (retry (config st)) + 1 then
               (Inl err,
                if instanceof_NetworkError err
                then setOfflineMode True (st\<lparr>wire := wire st @ [opts]\<rparr>)
                else st\<lparr>wire := wire st @ [opts]\<rparr>)
             else
               requestWithRetry_loop remote opts (attempt + 1) (Some err)
                 ((if instanceof_NetworkError err
                   then setOfflineMode True (st\<lparr>wire := wire st @ [opts]\<rparr>)
                   else st\<lparr>wire := wire st @ [opts]\<rparr>)
                  \<lparr>sleeps := sleeps st @ [exponentialBackoff (attempt + 1 - 1) (retry (config st))]\<rparr>))
      else
        (Inl (case lastError of
                Some e \<Rightarrow> e
              | None \<Rightarrow> GovernorError ''Unknown error'' ''unknown''), st))"
  by pat_completeness auto
termination
  by (relation "measure (\<lambda>(remote, opts, attempt, lastError, st).
        nat (retries (retry (config st)) + 1 - int attempt))")
     (auto simp: setOfflineMode_def)

declare requestWithRetry_loop.simps [simp del]

definition with_timeout :: "request \<Rightarrow> governor \<Rightarrow> request" where
  \<comment> \<open>\<open>{...options, timeoutMs: options.timeoutMs ?? this.config.timeoutMs}\<close>\<close>
  "with_timeout opts st =
     opts\<lparr>req_timeoutMs :=
       Some (case req_timeoutMs opts of Some ms \<Rightarrow> ms | None \<Rightarrow> timeoutMs (config st))\<rparr>"

definition requestWithRetry ::
  "(request list \<Rightarrow> request \<Rightarrow> 'd fetch_result) \<Rightarrow> request \<Rightarrow> governor
     \<Rightarrow> (error + 'd http_response) \<times> governor" where
  "requestWithRetry remote opts st = requestWithRetry_loop remote (with_timeout opts st) 0 None st"

definition decodeRulepack :: "rulepack_wire \<Rightarrow> error + rulepack option" where
  \<comment> \<open>direct \<open>JSON.parse\<close> first, then inflate and parse; what the second parse throws escapes;
     \<open>None\<close> is the parsed \<open>null\<close>\<close>
  "decodeRulepack bytes =
     (case bytes of
        Plain pack \<Rightarrow> Inr (Some pack)
      | Deflated pack \<Rightarrow> Inr (Some pack)
      | Null_json \<Rightarrow> Inr None
      | Garbled e \<Rightarrow> Inl (RawError e))"

definition loadRulepack ::
  "world \<Rightarrow> string \<Rightarrow> bool \<Rightarrow> governor \<Rightarrow> (error + stored option) \<times> governor" where
  "loadRulepack w policy forceRefresh st =
     (if policy = [] then (Inl (PolicyError ''policyId is required to load a rulepack''), st)
      else
        (let looked = (if \<not> forceRefresh then getCachedRulepack (clock w (wire st)) policy st
                       else (None, st));
             cached = fst looked;
             st1 = snd looked
         in if cached \<noteq> None then (Inr cached, st1)
            else if isOffline st1 then (Inr None, st1)
            else
              (case requestWithRetry (rulepack_endpoint w)
                      \<lparr>url = endpoint (config st1) @ ''/policies/'' @ policy @ ''/rulepack'',
                       http_method = ''GET'', body = None,
                       req_timeoutMs = Some (timeoutMs (config st1))\<rparr> st1 of
                 (Inl e, st2) \<Rightarrow> (Inl e, st2)
               | (Inr response, st2) \<Rightarrow>
                   (case decodeRulepack (data response) of
                      Inl e \<Rightarrow> (Inl e, st2)
                    | Inr None \<Rightarrow>
                        \<comment> \<open>\<open>cacheRulepack\<close> reads \<open>rulepack.ttlSeconds\<close> of \<open>null\<close>\<close>
                        (Inl (RawError ''TypeError: Cannot read properties of null''), st2)
                    | Inr (Some pack) \<Rightarrow>
                        (Inr (Some (Pack pack)),
                         cacheRulepack w (clock w (wire st2)) policy pack st2)))))"

definition ensureRulepackCached ::
  "world \<Rightarrow> string \<Rightarrow> governor \<Rightarrow> (error + unit) \<times> governor" where
  "ensureRulepackCached w policy st =
     (case getCachedRulepack (clock w (wire st)) policy st of
        (Some cached, st1) \<Rightarrow> (Inr (), st1)
      | (None, st1) \<Rightarrow>
          (case loadRulepack w policy True st1 of
             (Inl e, st2) \<Rightarrow> (Inl e, st2)
           | (Inr loaded, st2) \<Rightarrow> (Inr (), st2)))"

definition wants_offline :: "evaluation_payload \<Rightarrow> bool" where
  \<comment> \<open>\<open>payload.options?.offline\<close> as a condition\<close>
  "wants_offline payload =
     (case options payload of None \<Rightarrow> False | Some opts \<Rightarrow> offline opts = Some True)"

definition evaluate ::
  "world \<Rightarrow> evaluation_payload \<Rightarrow> governor \<Rightarrow> (error + evaluation_result) \<times> governor" where
  "evaluate w payload st =
     (if policyId payload = [] then
        (Inl (PolicyError ''policyId is required for evaluation''), st)
      else
        (let piiMatches = (case payload_input payload of
                             Text txt \<Rightarrow> detectPII w txt
                           | Structured other \<Rightarrow> []
                           | Unserialisable thrown \<Rightarrow> [])
         in if isOffline st \<or> wants_offline payload then
              (let createdAt = clock w (wire st);
                   st1 = enqueueOfflineEvent createdAt (Evaluation payload createdAt) st
               in (Inr \<lparr>res_policyId = policyId payload, res_decision = Review, score = None,
                        reasons = None,
                        metadata = Some [''offline'' \<mapsto> JBool True,
                                         ''queuedEventId'' \<mapsto> JNum createdAt,
                                         ''piiMatches'' \<mapsto> JMatches piiMatches],
                        evaluatedAt = clock w (wire st1)\<rparr>, st1))
            else
              (case ensureRulepackCached w (policyId payload) st of
                 (Inl e, st1) \<Rightarrow> (Inl e, st1)
               | (Inr ensured, st1) \<Rightarrow>
                   (case requestWithRetry (evaluate_endpoint w)
                           \<lparr>url = endpoint (config st1) @ ''/policies/'' @ policyId payload
                                   @ ''/evaluate'',
                            http_method = ''POST'', body = Some (Payload_body payload),
                            req_timeoutMs = Some (timeoutMs (config st1))\<rparr> st1 of
                      (Inl e, st2) \<Rightarrow> (Inl e, st2)
                    | (Inr response, st2) \<Rightarrow>
                        (case data response of
                           None \<Rightarrow>
                             \<comment> \<open>\<open>response.data.metadata\<close> of \<open>null\<close>\<close>
                             (Inl (RawError ''TypeError: Cannot read properties of null''), st2)
                         | Some answered \<Rightarrow>
                             (let result = answered
                                    \<lparr>metadata := Some
                                       ((case metadata answered of
                                           None \<Rightarrow> Map.empty
                                         | Some m \<Rightarrow> m)
                                        (''piiMatches'' \<mapsto> JMatches piiMatches,
                                         ''cacheMetrics'' \<mapsto>
                                           JMetrics (getMetrics (rulepackCache st2))))\<rparr>
                              in (Inr result,
                                  if enableAuditLog (config st2) then
                                    appendAuditRecord (clock w (wire st2))
                                      \<lparr>audit_id = ''audit_'' @ randomUUID w (wire st2),
                                       timestamp = clock w (wire st2),
                                       action = ''evaluate'',
                                       audit_payload =
                                         [''policyId'' \<mapsto> JStr (policyId payload),
                                          ''decision'' \<mapsto> JDecision (res_decision result),
                                          ''score'' \<mapsto> JScore (score result),
                                          ''offline'' \<mapsto> JBool False,
                                          ''matches'' \<mapsto> JMatches piiMatches]\<rparr> st2
                                  else st2)))))))"

definition updatePolicies ::
  "world \<Rightarrow> policy_definition list \<Rightarrow> governor \<Rightarrow> (error + unit) \<times> governor" where
  "updatePolicies w ps st =
     (if isOffline st then
        (Inr (), enqueueOfflineEvent (clock w (wire st)) (Policy_update ps (clock w (wire st))) st)
      else
        (case requestWithRetry (policies_endpoint w)
                \<lparr>url = endpoint (config st) @ ''/policies'', http_method = ''PUT'',
                 body = Some (Policies_body ps), req_timeoutMs = None\<rparr> st of
           (Inl e, st1) \<Rightarrow> (Inl e, st1)
         | (Inr response, st1) \<Rightarrow> (Inr (), st1)))"

text \<open>
  The body of the \<open>try\<close> block of \<open>flushOfflineQueue\<close>: \<open>replay_payload\<close> is the payload it
  builds from the queued one, \<open>replay\<close> the delivery of one event.
\<close>

definition replay_payload :: "evaluation_payload \<Rightarrow> evaluation_payload" where
  "replay_payload originalPayload =
     originalPayload\<lparr>options :=
       (case options originalPayload of
          None \<Rightarrow> None
        | Some opts \<Rightarrow> Some (opts\<lparr>offline := Some False\<rparr>))\<rparr>"

definition replay :: "world \<Rightarrow> offline_event \<Rightarrow> governor \<Rightarrow> (error + unit) \<times> governor" where
  "replay w event st =
     (case event of
        Evaluation originalPayload createdAt \<Rightarrow>
          (case evaluate w (replay_payload originalPayload) st of
             (Inl e, st1) \<Rightarrow> (Inl e, st1)
           | (Inr result, st1) \<Rightarrow> (Inr (), st1))
      | Policy_update ps createdAt \<Rightarrow> updatePolicies w ps st)"

text \<open>
  The \<open>while\<close> loop of \<open>flushOfflineQueue\<close>. Nothing in the loop itself bounds it (a replay
  can enqueue), so it is a partial function: \<open>None\<close> is the loop that never ends.
\<close>

partial_function (option) drain :: "world \<Rightarrow> governor \<Rightarrow> ((error + unit) \<times> governor) option" where
  "drain w st =
     (case offlineQueue st of
        [] \<Rightarrow> Some (Inr (), st)
      | event # rest \<Rightarrow>
          (case replay w event (st\<lparr>offlineQueue := rest\<rparr>) of
             (Inl e, st1) \<Rightarrow> Some (Inl e, st1\<lparr>offlineQueue := event # offlineQueue st1\<rparr>)
           | (Inr done, st1) \<Rightarrow> drain w st1))"

definition flushOfflineQueue :: "world \<Rightarrow> governor \<Rightarrow> ((error + unit) \<times> governor) option" where
  "flushOfflineQueue w st =
     (if isOffline st then Some (Inr (), st)
      else
        (case drain w st of
           None \<Rightarrow> None
         | Some (Inl e, st1) \<Rightarrow> Some (Inl e, st1)
         | Some (Inr done, st1) \<Rightarrow> Some (Inr (), persistOfflineQueue (clock w (wire st1)) st1)))"

text \<open>
  The constructor, on a storage driver that holds \<open>s\<close> (an instance whose \<open>initialize\<close>
  finds no persisted queue, audit log or index), and the defaults of config.ts.
\<close>

definition new_Governor :: "governor_config \<Rightarrow> stored store \<Rightarrow> governor" where
  "new_Governor cfg s =
     \<lparr>config = cfg, storage = s,
      rulepackCache = \<lparr>namespace = ''rulepack'', ttlMs = cacheTTL cfg, memory = Map.empty,
                       metrics = \<lparr>hits = 0, misses = 0, stale = 0\<rparr>\<rparr>,
      offlineQueue = [], auditLog = [], rulepackIndex = Map.empty,
      isOffline = cfg_offline cfg, wire = [], sleeps = []\<rparr>"

definition DEFAULT_RETRY :: retry_options where
  "DEFAULT_RETRY = \<lparr>retries = 3, factor = 2, minTimeoutMs = 250, maxTimeoutMs = 4000\<rparr>"

definition DEFAULTS :: governor_config where
  "DEFAULTS =
     \<lparr>apiKey = None, endpoint = ''https://api.aisentinel.ai/v1'', timeoutMs = 10000,
      retry = DEFAULT_RETRY, cacheTTL = 300000, cfg_offline = False,
      storageKeyPrefix = ''aisentinel'', enableAuditLog = True\<rparr>"

text \<open>
  The drain as the specification words it, driven by the list of queued events: deliver the
  head; on success go on with the events behind it; on failure put the event back in front
  of them and stop with the error.
\<close>

fun deliver_in_order :: "world \<Rightarrow> offline_event list \<Rightarrow> governor \<Rightarrow> (error + unit) \<times> governor" where
  "deliver_in_order w [] st = (Inr (), st)"
| "deliver_in_order w (event # later) st =
     (case replay w event (st\<lparr>offlineQueue := later\<rparr>) of
        (Inl e, st1) \<Rightarrow> (Inl e, st1\<lparr>offlineQueue := event # later\<rparr>)
      | (Inr done, st1) \<Rightarrow> deliver_in_order w later st1)"




section \<open>Error kinds at the boundary\<close>



section \<open>Concrete scenarios\<close>

text \<open>
  A \<open>PUT /policies\<close> request, a transport whose first call rejects and whose later calls
  answer 200, and a transport that always rejects.
\<close>

definition put_policies :: request where
  "put_policies =
     \<lparr>url = ''https://api.aisentinel.ai/v1/policies'', http_method = ''PUT'',
      body = Some (Policies_body []), req_timeoutMs = Some 10000\<rparr>"

definition flaky :: "request list \<Rightarrow> request \<Rightarrow> unit fetch_result" where
  "flaky h r =
     (if h = [] then Rejected ''TypeError: fetch failed'' else Answered 200 (Inr ''{}'') (Inr ()))"

definition refusing :: "request list \<Rightarrow> request \<Rightarrow> unit fetch_result" where
  "refusing h r = Rejected ''TypeError: fetch failed''"

text \<open>
  A service that answers every request, a payload that asks for offline handling, and the
  instance after that payload was evaluated and its event popped by the drain.
\<close>

definition demo_pack :: rulepack where
  "demo_pack = \<lparr>pack_id = ''p1'', checksum = ''c1'', updatedAt = ''2025-10-20'', policies = [],
                 ttlSeconds = None\<rparr>"

definition demo_result :: evaluation_result where
  "demo_result = \<lparr>res_policyId = ''p1'', res_decision = Allow, score = Some 1, reasons = None,
                   metadata = None, evaluatedAt = 0\<rparr>"

definition reachable :: world where
  "reachable =
     \<lparr>hashString = (\<lambda>s. s), detectPII = (\<lambda>s. []), clock = (\<lambda>h. int (length h)),
      randomUUID = (\<lambda>h. replicate (length h) CHR ''x''),
      evaluate_endpoint = (\<lambda>h r. Answered 200 (Inr ''{}'') (Inr (Some demo_result))),
      rulepack_endpoint = (\<lambda>h r. Answered 200 (Inr ''{}'') (Inr (Plain demo_pack))),
      policies_endpoint = (\<lambda>h r. Answered 200 (Inr ''{}'') (Inr ()))\<rparr>"

definition offline_payload :: evaluation_payload where
  "offline_payload = \<lparr>policyId = ''p1'', payload_input = Text ''hi'', eval_context = None,
     options = Some \<lparr>offline = Some True, audit = None\<rparr>\<rparr>"

definition queued_state :: governor where
  "queued_state = (snd (evaluate reachable offline_payload (new_Governor DEFAULTS Map.empty)))\<lparr>offlineQueue := []\<rparr>"

text \<open>
  A payload without options, a service that answers 503 to everything, one whose evaluate
  endpoint cannot be reached at all, and the error the 503 becomes.
\<close>

definition plain_payload :: evaluation_payload where
  "plain_payload = \<lparr>policyId = ''p1'', payload_input = Text ''hi'', eval_context = None,
     options = None\<rparr>"

definition unreachable :: world where
  "unreachable = reachable
     \<lparr>evaluate_endpoint := (\<lambda>h r. Answered 503 (Inr ''down'') (Inl [])),
      rulepack_endpoint := (\<lambda>h r. Answered 503 (Inr ''down'') (Inl [])),
      policies_endpoint := (\<lambda>h r. Answered 503 (Inr ''down'') (Inl []))\<rparr>"


definition fresh :: governor where
  "fresh = new_Governor DEFAULTS Map.empty"


text \<open>
  Three queued policy updates on an instance that does not retry, and a service whose
  first call times out.
\<close>

definition update_a :: offline_event where
  "update_a = Policy_update [\<lparr>policy_id = ''a'', version = ''1'', rules = []\<rparr>] 1"

definition update_b :: offline_event where
  "update_b = Policy_update [\<lparr>policy_id = ''b'', version = ''1'', rules = []\<rparr>] 2"

definition update_c :: offline_event where
  "update_c = Policy_update [\<lparr>policy_id = ''c'', version = ''1'', rules = []\<rparr>] 3"

definition failing_once :: world where
  "failing_once = reachable\<lparr>policies_endpoint :=
     (\<lambda>h r. if h = [] then Deadline else Answered 200 (Inr ''{}'') (Inr ()))\<rparr>"

definition backlog :: governor where
  "backlog = (new_Governor (DEFAULTS\<lparr>retry := DEFAULT_RETRY\<lparr>retries := 0\<rparr>\<rparr>) Map.empty)
                \<lparr>offlineQueue := [update_a, update_b, update_c]\<rparr>"

definition after_failed_flush :: governor where
  "after_failed_flush = snd (deliver_in_order failing_once [update_a, update_b, update_c] backlog)"


text \<open>Six hundred audit records, numbered in append order.\<close>

definition numbered :: "nat \<Rightarrow> audit_record" where
  "numbered i = \<lparr>audit_id = ''audit_'' @ digits i, timestamp = int i, action = ''evaluate'',
                  audit_payload = Map.empty\<rparr>"

definition six_hundred :: "(int \<times> audit_record) list" where
  "six_hundred = map (\<lambda>i. (int i, numbered i)) [0 ..< 600]"

text \<open>
  A cache whose configured TTL is zero, the same cache with the default TTL, and a durable
  tier that alone holds the key.
\<close>

definition zero_ttl_cache :: "string cache_manager" where
  "zero_ttl_cache = \<lparr>namespace = ''rulepack'', ttlMs = 0, memory = Map.empty,
                      metrics = \<lparr>hits = 0, misses = 0, stale = 0\<rparr>\<rparr>"

definition long_ttl_cache :: "string cache_manager" where
  "long_ttl_cache = zero_ttl_cache\<lparr>ttlMs := 300000\<rparr>"

definition durable_only :: "string store" where
  "durable_only = [''aisentinel:rulepack:k'' \<mapsto> \<lparr>entry_value = ''bundle'', expiresAt = At 60000\<rparr>]"

text \<open>The same policy cached with checksum \<open>c1\<close> at time 0 and with \<open>c2\<close> at time 10.\<close>

definition newer_pack :: rulepack where
  "newer_pack = demo_pack\<lparr>checksum := ''c2''\<rparr>"

definition cached_twice :: governor where
  "cached_twice = cacheRulepack reachable 10 ''p1'' newer_pack
                    (cacheRulepack reachable 0 ''p1'' demo_pack (new_Governor DEFAULTS Map.empty))"

text \<open>
  A network that is down (every call of \<open>fetch\<close> rejects), and a payload whose input
  \<open>JSON.stringify\<close> throws on, with the request \<open>evaluate\<close> builds from it.
\<close>

definition cut_off :: world where
  "cut_off = reachable
     \<lparr>evaluate_endpoint := (\<lambda>h r. Rejected ''TypeError: fetch failed''),
      rulepack_endpoint := (\<lambda>h r. Rejected ''TypeError: fetch failed''),
      policies_endpoint := (\<lambda>h r. Rejected ''TypeError: fetch failed'')\<rparr>"



section \<open>The retry controller\<close>

subsection \<open>The four ways one iteration of the loop ends\<close>

lemma loop_unfold_retry:
  assumes "int attempt + 1 < retries (retry (config st)) + 1"
    and "httpRequest opts (remote (wire st) opts) = Inl err"
  shows "requestWithRetry_loop remote opts attempt lastError st
       = requestWithRetry_loop remote opts (attempt + 1) (Some err)
           ((if instanceof_NetworkError err
             then setOfflineMode True (st\<lparr>wire := wire st @ [opts]\<rparr>)
             else st\<lparr>wire := wire st @ [opts]\<rparr>)
            \<lparr>sleeps := sleeps st @ [exponentialBackoff attempt (retry (config st))]\<rparr>)"
  using assms by (subst requestWithRetry_loop.simps) simp

lemma loop_unfold_last:
  assumes "int attempt < retries (retry (config st)) + 1"
    and "retries (retry (config st)) + 1 \<le> int attempt + 1"
    and "httpRequest opts (remote (wire st) opts) = Inl err"
  shows "requestWithRetry_loop remote opts attempt lastError st
       = (Inl err, if instanceof_NetworkError err
                   then setOfflineMode True (st\<lparr>wire := wire st @ [opts]\<rparr>)
                   else st\<lparr>wire := wire st @ [opts]\<rparr>)"
  using assms by (subst requestWithRetry_loop.simps) simp

lemma loop_unfold_ok:
  assumes "int attempt < retries (retry (config st)) + 1"
    and "httpRequest opts (remote (wire st) opts) = Inr response"
  shows "requestWithRetry_loop remote opts attempt lastError st
       = (Inr response, setOfflineMode False (st\<lparr>wire := wire st @ [opts]\<rparr>))"
  using assms by (subst requestWithRetry_loop.simps) simp

lemma loop_unfold_none:
  assumes "\<not> int attempt < retries (retry (config st)) + 1"
  shows "requestWithRetry_loop remote opts attempt lastError st
       = (Inl (case lastError of Some e \<Rightarrow> e | None \<Rightarrow> GovernorError ''Unknown error'' ''unknown''), st)"
  using assms by (subst requestWithRetry_loop.simps) simp

subsection \<open>What a call leaves behind\<close>

lemma loop_frame:
  "config (snd (requestWithRetry_loop remote opts a le st)) = config st
   \<and> storage (snd (requestWithRetry_loop remote opts a le st)) = storage st
   \<and> rulepackCache (snd (requestWithRetry_loop remote opts a le st)) = rulepackCache st
   \<and> offlineQueue (snd (requestWithRetry_loop remote opts a le st)) = offlineQueue st
   \<and> auditLog (snd (requestWithRetry_loop remote opts a le st)) = auditLog st
   \<and> rulepackIndex (snd (requestWithRetry_loop remote opts a le st)) = rulepackIndex st"
proof (induction remote opts a le st rule: requestWithRetry_loop.induct)
  case (1 remote opts attempt lastError st)
  show ?case
    apply (subst (1 2 3 4 5 6) requestWithRetry_loop.simps)
    using 1
    by (auto simp: setOfflineMode_def split: sum.splits)
qed

lemma loop_shape:
  "\<exists>k. wire (snd (requestWithRetry_loop remote opts a le st)) = wire st @ replicate k opts
     \<and> int k \<le> max 0 (retries (retry (config st)) + 1 - int a)
     \<and> (int a < retries (retry (config st)) + 1 \<longrightarrow> 1 \<le> k)
     \<and> sleeps (snd (requestWithRetry_loop remote opts a le st))
         = sleeps st @ map (\<lambda>n. exponentialBackoff n (retry (config st))) [a ..< a + (k - 1)]"
proof (induction remote opts a le st rule: requestWithRetry_loop.induct)
  case (1 remote opts attempt lastError st)
  let ?M = "retries (retry (config st)) + 1"
  show ?case
  proof (cases "int attempt < ?M")
    case False
    then show ?thesis
      by (subst (1 2) requestWithRetry_loop.simps) (auto intro: exI[of _ 0])
  next
    case inb: True
    show ?thesis
    proof (cases "httpRequest opts (remote (wire st) opts)")
      case (Inr response)
      with inb show ?thesis
        by (subst (1 2) requestWithRetry_loop.simps) (auto simp: setOfflineMode_def intro!: exI[of _ 1])
    next
      case (Inl err)
      show ?thesis
      proof (cases "?M \<le> int (attempt + 1)")
        case True
        with inb Inl show ?thesis
          by (subst (1 2) requestWithRetry_loop.simps) (auto simp: setOfflineMode_def intro!: exI[of _ 1])
      next
        case more: False
        let ?st2 = "(if instanceof_NetworkError err
                   then setOfflineMode True (st\<lparr>wire := wire st @ [opts]\<rparr>)
                   else st\<lparr>wire := wire st @ [opts]\<rparr>)
                  \<lparr>sleeps := sleeps st @ [exponentialBackoff (attempt + 1 - 1) (retry (config st))]\<rparr>"
        have eq: "requestWithRetry_loop remote opts attempt lastError st
                = requestWithRetry_loop remote opts (attempt + 1) (Some err) ?st2"
          using inb Inl more by (subst requestWithRetry_loop.simps) simp
        have cfg: "config ?st2 = config st" "wire ?st2 = wire st @ [opts]"
          "sleeps ?st2 = sleeps st @ [exponentialBackoff attempt (retry (config st))]"
          by (auto simp: setOfflineMode_def)
        from "1.IH"[OF inb Inl] more
        obtain k where k: "wire (snd (requestWithRetry_loop remote opts (attempt + 1) (Some err) ?st2))
              = wire ?st2 @ replicate k opts"
          "int k \<le> max 0 (retries (retry (config ?st2)) + 1 - int (attempt + 1))"
          "int (attempt + 1) < retries (retry (config ?st2)) + 1 \<longrightarrow> 1 \<le> k"
          "sleeps (snd (requestWithRetry_loop remote opts (attempt + 1) (Some err) ?st2))
             = sleeps ?st2 @ map (\<lambda>n. exponentialBackoff n (retry (config ?st2))) [attempt + 1 ..< attempt + 1 + (k - 1)]"
          by (auto simp: not_le)
        from k(3) more cfg have k1: "1 \<le> k" by auto
        have up: "[attempt ..< attempt + (Suc k - 1)] = attempt # [attempt + 1 ..< attempt + 1 + (k - 1)]"
          using k1 by (simp add: upt_conv_Cons)
        show ?thesis
          unfolding eq
          apply (rule exI[of _ "Suc k"])
          using k k1 more inb unfolding cfg up
          by (auto simp: replicate_app_Cons_same)
      qed
    qed
  qed
qed


lemma loop_success_connected:
  "fst (requestWithRetry_loop remote opts a le st) = Inr response
   \<Longrightarrow> \<not> isOffline (snd (requestWithRetry_loop remote opts a le st))"
proof (induction remote opts a le st rule: requestWithRetry_loop.induct)
  case (1 remote opts attempt lastError st)
  let ?M = "retries (retry (config st)) + 1"
  show ?case
  proof (cases "int attempt < ?M")
    case False
    with "1.prems" show ?thesis by (simp add: loop_unfold_none)
  next
    case inb: True
    show ?thesis
    proof (cases "httpRequest opts (remote (wire st) opts)")
      case (Inr r)
      with inb show ?thesis by (simp add: loop_unfold_ok setOfflineMode_def)
    next
      case (Inl err)
      show ?thesis
      proof (cases "?M \<le> int (attempt + 1)")
        case True
        with inb Inl "1.prems" show ?thesis by (simp add: loop_unfold_last)
      next
        case False
        with inb Inl "1.prems" "1.IH"[OF inb Inl] show ?thesis
          by (simp add: loop_unfold_retry)
      qed
    qed
  qed
qed

lemma loop_failure_sticky:
  "fst (requestWithRetry_loop remote opts a le st) = Inl e \<Longrightarrow> isOffline st
   \<Longrightarrow> isOffline (snd (requestWithRetry_loop remote opts a le st))"
proof (induction remote opts a le st rule: requestWithRetry_loop.induct)
  case (1 remote opts attempt lastError st)
  let ?M = "retries (retry (config st)) + 1"
  show ?case
  proof (cases "int attempt < ?M")
    case False
    with "1.prems" show ?thesis by (simp add: loop_unfold_none)
  next
    case inb: True
    show ?thesis
    proof (cases "httpRequest opts (remote (wire st) opts)")
      case (Inr r)
      with inb "1.prems" show ?thesis by (simp add: loop_unfold_ok setOfflineMode_def)
    next
      case (Inl err)
      show ?thesis
      proof (cases "?M \<le> int (attempt + 1)")
        case True
        with inb Inl "1.prems" show ?thesis by (simp add: loop_unfold_last setOfflineMode_def)
      next
        case False
        with inb Inl "1.prems" "1.IH"[OF inb Inl] show ?thesis
          by (simp add: loop_unfold_retry setOfflineMode_def)
      qed
    qed
  qed
qed

lemma loop_failure_exhausts:
  "fst (requestWithRetry_loop remote opts a le st) = Inl e
   \<Longrightarrow> int a < retries (retry (config st)) + 1
   \<Longrightarrow> wire (snd (requestWithRetry_loop remote opts a le st))
        = wire st @ replicate (nat (retries (retry (config st)) + 1 - int a)) opts
     \<and> httpRequest opts
          (remote (wire st @ replicate (nat (retries (retry (config st)) - int a)) opts) opts) = Inl e
     \<and> (instanceof_NetworkError e \<longrightarrow> isOffline (snd (requestWithRetry_loop remote opts a le st)))"
proof (induction remote opts a le st rule: requestWithRetry_loop.induct)
  case (1 remote opts attempt lastError st)
  let ?M = "retries (retry (config st)) + 1"
  have inb: "int attempt < ?M" using "1.prems" by simp
  show ?case
  proof (cases "httpRequest opts (remote (wire st) opts)")
    case (Inr r)
    with inb "1.prems" show ?thesis by (simp add: loop_unfold_ok)
  next
    case (Inl err)
    show ?thesis
    proof (cases "?M \<le> int (attempt + 1)")
      case True
      then have "retries (retry (config st)) = int attempt" using inb by simp
      with True inb Inl "1.prems" show ?thesis
        by (simp add: loop_unfold_last setOfflineMode_def)
    next
      case more: False
      let ?st2 = "(if instanceof_NetworkError err
                   then setOfflineMode True (st\<lparr>wire := wire st @ [opts]\<rparr>)
                   else st\<lparr>wire := wire st @ [opts]\<rparr>)
                  \<lparr>sleeps := sleeps st @ [exponentialBackoff attempt (retry (config st))]\<rparr>"
      have eq: "requestWithRetry_loop remote opts attempt lastError st
                = requestWithRetry_loop remote opts (attempt + 1) (Some err) ?st2"
        using more Inl by (simp add: loop_unfold_retry)
      have cfg: "config ?st2 = config st" "wire ?st2 = wire st @ [opts]"
        by (auto simp: setOfflineMode_def)
      have n1: "nat (?M - int attempt) = Suc (nat (?M - int (attempt + 1)))"
        using more by simp
      have n2: "nat (retries (retry (config st)) - int attempt)
              = Suc (nat (retries (retry (config st)) - int (attempt + 1)))"
        using more by simp
      from "1.IH"[OF inb Inl] more "1.prems" eq
      have "wire (snd (requestWithRetry_loop remote opts (attempt + 1) (Some err) ?st2))
              = wire ?st2 @ replicate (nat (retries (retry (config ?st2)) + 1 - int (attempt + 1))) opts
          \<and> httpRequest opts
              (remote (wire ?st2 @ replicate (nat (retries (retry (config ?st2)) - int (attempt + 1))) opts) opts) = Inl e
          \<and> (instanceof_NetworkError e \<longrightarrow> isOffline (snd (requestWithRetry_loop remote opts (attempt + 1) (Some err) ?st2)))"
        by (simp add: setOfflineMode_def)
      then show ?thesis
        unfolding eq cfg n1 n2 by (simp add: replicate_app_Cons_same)
    qed
  qed
qed

subsection \<open>Attempts and delays\<close>

text \<open>
  Claim C5. A call of the retry controller makes \<open>k\<close> attempts with
  \<open>k \<le> retries + 1\<close> (none when \<open>retries + 1\<close> is not positive), and waits \<open>k - 1\<close>
  times: the delay before retry \<open>n\<close>, counted from 0, is
  \<open>min maxTimeoutMs (minTimeoutMs * factor ^ n)\<close>, a function of the configuration and
  \<open>n\<close> alone.
\<close>

theorem retry_budget_and_backoff:
  "\<exists>k. wire (snd (requestWithRetry remote opts st)) = wire st @ replicate k (with_timeout opts st)
     \<and> int k \<le> max 0 (retries (retry (config st)) + 1)
     \<and> sleeps (snd (requestWithRetry remote opts st))
        = sleeps st @ map (\<lambda>n. min (maxTimeoutMs (retry (config st)))
                                  (minTimeoutMs (retry (config st)) * factor (retry (config st)) ^ n))
                        [0 ..< k - 1]"
proof -
  from loop_shape[of remote "with_timeout opts st" 0 None st]
  show ?thesis
    unfolding requestWithRetry_def exponentialBackoff_def
    by auto
qed

text \<open>
  Claim C4, as the code has it. The loop does not look at the kind of an error before it
  retries: a call fails only after \<open>retries + 1\<close> attempts have been made, with a delay before
  each retry, and the error it propagates is the one of the last attempt, unchanged.
\<close>

theorem failure_only_after_every_attempt:
  assumes "fst (requestWithRetry remote opts st) = Inl e"
    and "0 \<le> retries (retry (config st))"
  shows "wire (snd (requestWithRetry remote opts st))
           = wire st @ replicate (nat (retries (retry (config st))) + 1) (with_timeout opts st)
       \<and> sleeps (snd (requestWithRetry remote opts st))
           = sleeps st @ map (\<lambda>n. exponentialBackoff n (retry (config st)))
                           [0 ..< nat (retries (retry (config st)))]
       \<and> httpRequest (with_timeout opts st)
            (remote (wire st @ replicate (nat (retries (retry (config st)))) (with_timeout opts st))
               (with_timeout opts st)) = Inl e"
proof -
  let ?o = "with_timeout opts st"
  have r: "requestWithRetry remote opts st = requestWithRetry_loop remote ?o 0 None st"
    by (simp add: requestWithRetry_def)
  from assms have inb: "int 0 < retries (retry (config st)) + 1" by simp
  from loop_failure_exhausts[OF assms(1)[unfolded r] inb]
  have w: "wire (snd (requestWithRetry_loop remote ?o 0 None st))
             = wire st @ replicate (nat (retries (retry (config st))) + 1) ?o"
    and l: "httpRequest ?o (remote (wire st @ replicate (nat (retries (retry (config st)))) ?o) ?o) = Inl e"
    using assms(2) by (simp_all add: nat_add_distrib)
  from loop_shape[of remote ?o 0 None st] obtain k where
    k: "wire (snd (requestWithRetry_loop remote ?o 0 None st)) = wire st @ replicate k ?o"
       "sleeps (snd (requestWithRetry_loop remote ?o 0 None st))
          = sleeps st @ map (\<lambda>n. exponentialBackoff n (retry (config st))) [0 ..< 0 + (k - 1)]"
    by blast
  from k(1) w have "length (replicate k ?o) = length (replicate (nat (retries (retry (config st))) + 1) ?o)"
    by simp
  then have "k = nat (retries (retry (config st))) + 1" by simp
  with k(2) w l show ?thesis unfolding r by simp
qed

theorem failure_only_after_every_attempt_witness:
  "fst (requestWithRetry refusing put_policies (new_Governor DEFAULTS Map.empty))
      = Inl (RawError ''TypeError: fetch failed'')
   \<and> wire (snd (requestWithRetry refusing put_policies (new_Governor DEFAULTS Map.empty)))
      = [put_policies, put_policies, put_policies, put_policies]
   \<and> sleeps (snd (requestWithRetry refusing put_policies (new_Governor DEFAULTS Map.empty)))
      = [250, 500, 1000]"
proof -
  have f: "fst (requestWithRetry refusing put_policies (new_Governor DEFAULTS Map.empty))
      = Inl (RawError ''TypeError: fetch failed'')"
    by (simp add: requestWithRetry_def with_timeout_def requestWithRetry_loop.simps httpRequest_def stringify_error_def refusing_def
      put_policies_def new_Governor_def DEFAULTS_def DEFAULT_RETRY_def setOfflineMode_def
      exponentialBackoff_def)
  have c: "0 \<le> retries (retry (config (new_Governor DEFAULTS Map.empty)))"
    by (simp add: new_Governor_def DEFAULTS_def DEFAULT_RETRY_def)
  have t: "with_timeout put_policies (new_Governor DEFAULTS Map.empty) = put_policies"
    by (simp add: with_timeout_def put_policies_def)
  have n: "nat (retries (retry (config (new_Governor DEFAULTS Map.empty)))) = 3"
    "retry (config (new_Governor DEFAULTS Map.empty)) = DEFAULT_RETRY"
    by (simp_all add: new_Governor_def DEFAULTS_def DEFAULT_RETRY_def)
  have u: "[0..<3] = [0, 1, 2::nat]" by (simp add: upt_rec)
  from failure_only_after_every_attempt[OF f c] f show ?thesis
    unfolding t n by (simp add: new_Governor_def exponentialBackoff_def DEFAULT_RETRY_def u numeral_3_eq_3)
qed

text \<open>
  Claim C4 as stated fails: an exception that is neither a \<open>network_error\<close> nor a
  \<open>timeout_error\<close> (here what \<open>fetch\<close> rejects with) does not propagate on its first
  occurrence. With the default retry options the controller waits 250 ms, attempts again and
  returns the second attempt's response.
\<close>

theorem raw_error_is_retried:
  "httpRequest put_policies (flaky [] put_policies) = Inl (RawError ''TypeError: fetch failed'')
   \<and> code (RawError ''TypeError: fetch failed'') \<noteq> Some ''network_error''
   \<and> code (RawError ''TypeError: fetch failed'') \<noteq> Some ''timeout_error''
   \<and> fst (requestWithRetry flaky put_policies (new_Governor DEFAULTS Map.empty))
       = Inr \<lparr>status = 200, data = ()\<rparr>
   \<and> wire (snd (requestWithRetry flaky put_policies (new_Governor DEFAULTS Map.empty)))
       = [put_policies, put_policies]
   \<and> sleeps (snd (requestWithRetry flaky put_policies (new_Governor DEFAULTS Map.empty))) = [250]"
  by (simp add: requestWithRetry_def with_timeout_def requestWithRetry_loop.simps httpRequest_def stringify_error_def flaky_def
      put_policies_def new_Governor_def DEFAULTS_def DEFAULT_RETRY_def setOfflineMode_def
      exponentialBackoff_def)

section \<open>Effects of the operations\<close>

text \<open>
  What each operation leaves unchanged, and the Connectivity Mode it ends in.
\<close>

lemma requestWithRetry_effect:
  assumes "requestWithRetry remote opts st = (r, st')"
  shows "config st' = config st \<and> storage st' = storage st
       \<and> rulepackCache st' = rulepackCache st \<and> offlineQueue st' = offlineQueue st
       \<and> auditLog st' = auditLog st \<and> rulepackIndex st' = rulepackIndex st
       \<and> (case r of Inr response \<Rightarrow> \<not> isOffline st'
                   | Inl e \<Rightarrow> instanceof_NetworkError e \<longrightarrow> isOffline st')"
proof -
  let ?o = "with_timeout opts st"
  have r: "requestWithRetry_loop remote ?o 0 None st = (r, st')"
    using assms by (simp add: requestWithRetry_def)
  have fr: "config st' = config st \<and> storage st' = storage st
       \<and> rulepackCache st' = rulepackCache st \<and> offlineQueue st' = offlineQueue st
       \<and> auditLog st' = auditLog st \<and> rulepackIndex st' = rulepackIndex st"
    using loop_frame[of remote ?o 0 None st] r by simp
  have md: "case r of Inr response \<Rightarrow> \<not> isOffline st'
                   | Inl e \<Rightarrow> instanceof_NetworkError e \<longrightarrow> isOffline st'"
  proof (cases r)
    case (Inr response)
    with loop_success_connected[of remote ?o 0 None st response] r show ?thesis by simp
  next
    case (Inl e)
    show ?thesis
    proof (cases "int 0 < retries (retry (config st)) + 1")
      case True
      with loop_failure_exhausts[of remote ?o 0 None st e] r Inl show ?thesis by simp
    next
      case False
      with r Inl show ?thesis by (auto simp: loop_unfold_none)
    qed
  qed
  from fr md show ?thesis by simp
qed

lemma getCachedRulepack_frame:
  assumes "getCachedRulepack t policy st = (found, st')"
  shows "config st' = config st \<and> offlineQueue st' = offlineQueue st
       \<and> auditLog st' = auditLog st \<and> rulepackIndex st' = rulepackIndex st
       \<and> isOffline st' = isOffline st \<and> wire st' = wire st \<and> sleeps st' = sleeps st"
  using assms
  by (auto simp: getCachedRulepack_def split: option.splits if_splits prod.splits)

lemma cacheRulepack_frame:
  "config (cacheRulepack w t policy pack st) = config st
   \<and> offlineQueue (cacheRulepack w t policy pack st) = offlineQueue st
   \<and> auditLog (cacheRulepack w t policy pack st) = auditLog st
   \<and> isOffline (cacheRulepack w t policy pack st) = isOffline st
   \<and> wire (cacheRulepack w t policy pack st) = wire st
   \<and> sleeps (cacheRulepack w t policy pack st) = sleeps st"
  by (simp add: cacheRulepack_def Let_def)

lemma loadRulepack_effect:
  assumes "loadRulepack w policy force st = (r, st')"
  shows "config st' = config st \<and> offlineQueue st' = offlineQueue st
       \<and> auditLog st' = auditLog st
       \<and> (case r of Inr loaded \<Rightarrow> \<not> isOffline st \<longrightarrow> \<not> isOffline st'
                   | Inl e \<Rightarrow> instanceof_NetworkError e \<longrightarrow> isOffline st')"
proof (cases "policy = []")
  case True
  with assms show ?thesis by (auto simp: loadRulepack_def)
next
  case ne: False
  obtain cached st1 where look:
    "(if \<not> force then getCachedRulepack (clock w (wire st)) policy st else (None, st)) = (cached, st1)"
    by (cases "if \<not> force then getCachedRulepack (clock w (wire st)) policy st else (None, st)")
  have f1: "config st1 = config st \<and> offlineQueue st1 = offlineQueue st
       \<and> auditLog st1 = auditLog st \<and> isOffline st1 = isOffline st"
    using look getCachedRulepack_frame[of "clock w (wire st)" policy st cached st1]
    by (auto split: if_splits)
  show ?thesis
  proof (cases "cached \<noteq> None \<or> isOffline st1")
    case True
    with assms ne look f1 show ?thesis
      by (auto simp: loadRulepack_def Let_def split: if_splits)
  next
    case False
    let ?req = "\<lparr>url = endpoint (config st1) @ ''/policies/'' @ policy @ ''/rulepack'',
                       http_method = ''GET'', body = None,
                       req_timeoutMs = Some (timeoutMs (config st1))\<rparr>"
    obtain r2 st2 where rq: "requestWithRetry (rulepack_endpoint w) ?req st1 = (r2, st2)"
      by (cases "requestWithRetry (rulepack_endpoint w) ?req st1")
    note e2 = requestWithRetry_effect[OF rq]
    from assms ne look False rq
    have res: "(r, st') = (case r2 of Inl e \<Rightarrow> (Inl e, st2)
                 | Inr response \<Rightarrow> (case decodeRulepack (data response) of
                      Inl e \<Rightarrow> (Inl e, st2)
                    | Inr None \<Rightarrow>
                        (Inl (RawError ''TypeError: Cannot read properties of null''), st2)
                    | Inr (Some pack) \<Rightarrow> (Inr (Some (Pack pack)),
                         cacheRulepack w (clock w (wire st2)) policy pack st2)))"
      by (auto simp: loadRulepack_def Let_def split: sum.splits option.splits)
    show ?thesis
    proof (cases r2)
      case (Inl e)
      with res e2 f1 show ?thesis by auto
    next
      case (Inr response)
      show ?thesis
      proof (cases "decodeRulepack (data response)")
        case (Inl e)
        then have "\<not> instanceof_NetworkError e"
          by (auto simp: decodeRulepack_def split: rulepack_wire.splits)
        with Inl Inr res e2 f1 show ?thesis by auto
      next
        case dec: (Inr decoded)
        show ?thesis
        proof (cases decoded)
          case None
          with dec Inr res e2 f1 show ?thesis by auto
        next
          case (Some pack)
          with dec Inr res e2 f1 cacheRulepack_frame[of w "clock w (wire st2)" policy pack st2]
          show ?thesis by auto
        qed
      qed
    qed
  qed
qed

lemma ensureRulepackCached_effect:
  assumes "ensureRulepackCached w policy st = (r, st')"
  shows "config st' = config st \<and> offlineQueue st' = offlineQueue st
       \<and> auditLog st' = auditLog st
       \<and> (case r of Inr ensured \<Rightarrow> \<not> isOffline st \<longrightarrow> \<not> isOffline st'
                   | Inl e \<Rightarrow> instanceof_NetworkError e \<longrightarrow> isOffline st')"
proof -
  obtain cached st1 where g: "getCachedRulepack (clock w (wire st)) policy st = (cached, st1)"
    by (cases "getCachedRulepack (clock w (wire st)) policy st")
  note f1 = getCachedRulepack_frame[OF g]
  show ?thesis
  proof (cases cached)
    case (Some v)
    with assms g f1 show ?thesis by (auto simp: ensureRulepackCached_def)
  next
    case None
    obtain r2 st2 where l: "loadRulepack w policy True st1 = (r2, st2)"
      by (cases "loadRulepack w policy True st1")
    note e2 = loadRulepack_effect[OF l]
    from assms g None l have "(r, st') = (case r2 of Inl e \<Rightarrow> (Inl e, st2) | Inr loaded \<Rightarrow> (Inr (), st2))"
      by (auto simp: ensureRulepackCached_def split: sum.splits)
    with e2 f1 show ?thesis by (cases r2) auto
  qed
qed

lemma requestWithRetry_success_wire:
  assumes "requestWithRetry remote opts st = (Inr response, st')"
  shows "wire st' \<noteq> [] \<and> last (wire st') = with_timeout opts st"
proof -
  let ?o = "with_timeout opts st"
  have r: "requestWithRetry_loop remote ?o 0 None st = (Inr response, st')"
    using assms by (simp add: requestWithRetry_def)
  have inb: "int 0 < retries (retry (config st)) + 1"
  proof (rule ccontr)
    assume "\<not> int 0 < retries (retry (config st)) + 1"
    from loop_unfold_none[OF this, of remote ?o None] r show False by simp
  qed
  from loop_shape[of remote ?o 0 None st] r inb obtain k where
    "wire st' = wire st @ replicate k ?o" "1 \<le> k" by auto
  then show ?thesis by (cases k) auto
qed

lemma enqueueOfflineEvent_effect:
  "offlineQueue (enqueueOfflineEvent t event st) = offlineQueue st @ [event]
   \<and> config (enqueueOfflineEvent t event st) = config st
   \<and> auditLog (enqueueOfflineEvent t event st) = auditLog st
   \<and> isOffline (enqueueOfflineEvent t event st) = isOffline st
   \<and> wire (enqueueOfflineEvent t event st) = wire st
   \<and> sleeps (enqueueOfflineEvent t event st) = sleeps st
   \<and> rulepackIndex (enqueueOfflineEvent t event st) = rulepackIndex st
   \<and> rulepackCache (enqueueOfflineEvent t event st) = rulepackCache st"
  by (simp add: enqueueOfflineEvent_def persistOfflineQueue_def)

lemma evaluate_offline:
  assumes "policyId payload \<noteq> []" and "isOffline st \<or> wants_offline payload"
  shows "snd (evaluate w payload st)
           = enqueueOfflineEvent (clock w (wire st)) (Evaluation payload (clock w (wire st))) st
       \<and> (\<exists>result. fst (evaluate w payload st) = Inr result \<and> res_decision result = Review)"
  using assms by (auto simp: evaluate_def Let_def)

lemma appendAuditRecord_effect:
  "auditLog (appendAuditRecord t record st)
     = (if enableAuditLog (config st) then drop (length (auditLog st @ [record]) - 500) (auditLog st @ [record])
        else auditLog st)
   \<and> config (appendAuditRecord t record st) = config st
   \<and> offlineQueue (appendAuditRecord t record st) = offlineQueue st
   \<and> isOffline (appendAuditRecord t record st) = isOffline st
   \<and> wire (appendAuditRecord t record st) = wire st
   \<and> sleeps (appendAuditRecord t record st) = sleeps st"
  by (simp add: appendAuditRecord_def Let_def)

lemma evaluate_online_effect:
  assumes "\<not> isOffline st" and "\<not> wants_offline payload"
    and "evaluate w payload st = (r, st')"
  shows "config st' = config st \<and> offlineQueue st' = offlineQueue st
       \<and> (case r of
            Inl e \<Rightarrow> auditLog st' = auditLog st \<and> (instanceof_NetworkError e \<longrightarrow> isOffline st')
          | Inr result \<Rightarrow>
              \<not> isOffline st' \<and> policyId payload \<noteq> [] \<and> wire st' \<noteq> []
              \<and> body (last (wire st')) = Some (Payload_body payload)
              \<and> (\<exists>record. action record = ''evaluate''
                    \<and> auditLog st' = (if enableAuditLog (config st)
                          then drop (length (auditLog st @ [record]) - 500) (auditLog st @ [record])
                          else auditLog st)))"
proof (cases "policyId payload = []")
  case True
  with assms show ?thesis by (auto simp: evaluate_def)
next
  case ne: False
  obtain r1 st1 where en: "ensureRulepackCached w (policyId payload) st = (r1, st1)"
    by (cases "ensureRulepackCached w (policyId payload) st")
  note e1 = ensureRulepackCached_effect[OF en]
  show ?thesis
  proof (cases r1)
    case (Inl e)
    with assms ne en e1 show ?thesis by (auto simp: evaluate_def Let_def)
  next
    case ok1: (Inr ensured)
    let ?req = "\<lparr>url = endpoint (config st1) @ ''/policies/'' @ policyId payload @ ''/evaluate'',
                 http_method = ''POST'', body = Some (Payload_body payload),
                 req_timeoutMs = Some (timeoutMs (config st1))\<rparr>"
    obtain r2 st2 where rq: "requestWithRetry (evaluate_endpoint w) ?req st1 = (r2, st2)"
      by (cases "requestWithRetry (evaluate_endpoint w) ?req st1")
    note e2 = requestWithRetry_effect[OF rq]
    show ?thesis
    proof (cases r2)
      case (Inl e)
      with assms ne en ok1 rq e1 e2 show ?thesis by (auto simp: evaluate_def Let_def)
    next
      case (Inr response)
      from requestWithRetry_success_wire[OF rq[unfolded Inr]]
      have w2: "wire st2 \<noteq> []" "body (last (wire st2)) = Some (Payload_body payload)"
        by (simp_all add: with_timeout_def)
      show ?thesis
      proof (cases "data response")
        case None
        with assms ne en ok1 rq Inr e1 e2 show ?thesis by (auto simp: evaluate_def Let_def)
      next
        case (Some answered)
        let ?rec = "\<lparr>audit_id = ''audit_'' @ randomUUID w (wire st2),
                     timestamp = clock w (wire st2), action = ''evaluate'',
                     audit_payload =
                       [''policyId'' \<mapsto> JStr (policyId payload),
                        ''decision'' \<mapsto> JDecision (res_decision answered),
                        ''score'' \<mapsto> JScore (score answered),
                        ''offline'' \<mapsto> JBool False,
                        ''matches'' \<mapsto> JMatches (case payload_input payload of
                               Text txt \<Rightarrow> detectPII w txt
                             | Structured other \<Rightarrow> []
                             | Unserialisable thrown \<Rightarrow> [])]\<rparr>"
        from assms ne en ok1 rq Inr Some
        have st': "st' = (if enableAuditLog (config st2)
                          then appendAuditRecord (clock w (wire st2)) ?rec st2 else st2)"
          and r: "\<exists>result. r = Inr result"
          by (auto simp: evaluate_def Let_def)
        from r obtain result where rr: "r = Inr result" by blast
        have a: "action ?rec = ''evaluate''" by simp
        show ?thesis
          unfolding rr st'
          using e1 e2 Inr ok1 assms(1) w2 ne appendAuditRecord_effect[of "clock w (wire st2)" ?rec st2]
          by (auto intro!: exI[of _ ?rec])
      qed
    qed
  qed
qed

lemma updatePolicies_online_effect:
  assumes "\<not> isOffline st" and "updatePolicies w ps st = (r, st')"
  shows "config st' = config st \<and> offlineQueue st' = offlineQueue st \<and> auditLog st' = auditLog st
       \<and> (case r of Inl e \<Rightarrow> instanceof_NetworkError e \<longrightarrow> isOffline st'
                   | Inr done \<Rightarrow> \<not> isOffline st')"
proof -
  let ?req = "\<lparr>url = endpoint (config st) @ ''/policies'', http_method = ''PUT'',
                 body = Some (Policies_body ps), req_timeoutMs = None\<rparr>"
  obtain r2 st2 where rq: "requestWithRetry (policies_endpoint w) ?req st = (r2, st2)"
    by (cases "requestWithRetry (policies_endpoint w) ?req st")
  note e2 = requestWithRetry_effect[OF rq]
  from assms rq e2 show ?thesis
    by (cases r2) (auto simp: updatePolicies_def)
qed

lemma replay_payload_not_offline: "\<not> wants_offline (replay_payload p)"
  by (simp add: replay_payload_def wants_offline_def split: option.splits)

lemma replay_effect:
  assumes "\<not> isOffline st" and "replay w event st = (r, st')"
  shows "config st' = config st \<and> offlineQueue st' = offlineQueue st
       \<and> (case r of Inl e \<Rightarrow> True | Inr done \<Rightarrow> \<not> isOffline st')"
proof (cases event)
  case (Evaluation p c)
  obtain r1 st1 where ev: "evaluate w (replay_payload p) st = (r1, st1)"
    by (cases "evaluate w (replay_payload p) st")
  from evaluate_online_effect[OF assms(1) replay_payload_not_offline ev] assms(2) Evaluation ev
  show ?thesis by (cases r1) (auto simp: replay_def)
next
  case (Policy_update ps c)
  with updatePolicies_online_effect[OF assms(1), of w ps r st'] assms(2)
  show ?thesis by (cases r) (auto simp: replay_def)
qed

section \<open>The offline queue\<close>

lemma drain_delivers:
  "\<not> isOffline st \<Longrightarrow> offlineQueue st = q
   \<Longrightarrow> drain w st = Some (deliver_in_order w q st)
     \<and> (\<exists>n. n \<le> length q \<and> offlineQueue (snd (deliver_in_order w q st)) = drop n q
           \<and> (case fst (deliver_in_order w q st) of Inl e \<Rightarrow> n < length q | Inr done \<Rightarrow> n = length q
                 \<and> \<not> isOffline (snd (deliver_in_order w q st))))"
proof (induction q arbitrary: st)
  case Nil
  then show ?case by (subst drain.simps) simp
next
  case (Cons event later)
  let ?st0 = "st\<lparr>offlineQueue := later\<rparr>"
  obtain r st1 where rp: "replay w event ?st0 = (r, st1)"
    by (cases "replay w event ?st0")
  have off0: "\<not> isOffline ?st0" using Cons.prems by simp
  note e1 = replay_effect[OF off0 rp]
  show ?case
  proof (cases r)
    case (Inl e)
    with Cons.prems rp e1 show ?thesis
      by (subst drain.simps) (auto intro!: exI[of _ 0])
  next
    case (Inr u)
    with e1 have q1: "\<not> isOffline st1" "offlineQueue st1 = later" by simp_all
    from Cons.IH[OF q1] obtain n where
      d: "drain w st1 = Some (deliver_in_order w later st1)"
      and n: "n \<le> length later" "offlineQueue (snd (deliver_in_order w later st1)) = drop n later"
        "case fst (deliver_in_order w later st1) of Inl e \<Rightarrow> n < length later
           | Inr done \<Rightarrow> n = length later \<and> \<not> isOffline (snd (deliver_in_order w later st1))"
      by blast
    have "drain w st = Some (deliver_in_order w (event # later) st)"
      using Cons.prems rp Inr d by (subst drain.simps) simp
    moreover have "\<exists>m. m \<le> length (event # later)
        \<and> offlineQueue (snd (deliver_in_order w (event # later) st)) = drop m (event # later)
        \<and> (case fst (deliver_in_order w (event # later) st) of
              Inl e \<Rightarrow> m < length (event # later)
            | Inr done \<Rightarrow> m = length (event # later)
                 \<and> \<not> isOffline (snd (deliver_in_order w (event # later) st)))"
      using rp Inr n by (intro exI[of _ "Suc n"]) (auto split: sum.splits)
    ultimately show ?thesis by blast
  qed
qed

text \<open>Unfolding every operation, for the evaluation of concrete scenarios.\<close>

lemmas eval_defs = evaluate_def ensureRulepackCached_def loadRulepack_def getCachedRulepack_def
  cacheRulepack_def rulepack_life_def cache_set_def cache_get_def promote_def getItem_def setItem_def serialize_def
  requestWithRetry_def with_timeout_def requestWithRetry_loop.simps httpRequest_def stringify_error_def
  setOfflineMode_def exponentialBackoff_def appendAuditRecord_def enqueueOfflineEvent_def
  persistOfflineQueue_def decodeRulepack_def createRulepackCacheKey_def wants_offline_def
  new_Governor_def DEFAULTS_def DEFAULT_RETRY_def Let_def getPrefixedKey_def withPrefix_def
  replay_def replay_payload_def updatePolicies_def getMetrics_def cache_isExpired_def
  storage_isExpired_def

text \<open>
  Claim C1. The payload a replay hands to \<open>evaluate\<close> is the queued payload with
  \<open>options.offline\<close> set to \<open>false\<close>, or without options when the queued payload had none,
  and its other fields unchanged. The event \<open>evaluate\<close> enqueues on the offline route holds the
  caller's payload as it was given. A replay in connected mode leaves the queue as it found
  it, and when it succeeds the last request on the wire carries the overridden payload.
\<close>

theorem replay_overrides_offline:
  "options (replay_payload p)
     = (case options p of None \<Rightarrow> None | Some opts \<Rightarrow> Some (opts\<lparr>offline := Some False\<rparr>))
   \<and> policyId (replay_payload p) = policyId p
   \<and> payload_input (replay_payload p) = payload_input p
   \<and> eval_context (replay_payload p) = eval_context p
   \<and> (policyId p \<noteq> [] \<and> (isOffline st \<or> wants_offline p)
        \<longrightarrow> offlineQueue (snd (evaluate w p st)) = offlineQueue st @ [Evaluation p (clock w (wire st))])
   \<and> snd (replay w (Evaluation p c) st') = snd (evaluate w (replay_payload p) st')
   \<and> (\<not> isOffline st'
        \<longrightarrow> offlineQueue (snd (replay w (Evaluation p c) st')) = offlineQueue st'
          \<and> (fst (replay w (Evaluation p c) st') = Inr ()
               \<longrightarrow> wire (snd (replay w (Evaluation p c) st')) \<noteq> []
                 \<and> body (last (wire (snd (replay w (Evaluation p c) st'))))
                     = Some (Payload_body (replay_payload p))))"
proof -
  have a: "options (replay_payload p)
     = (case options p of None \<Rightarrow> None | Some opts \<Rightarrow> Some (opts\<lparr>offline := Some False\<rparr>))
   \<and> policyId (replay_payload p) = policyId p
   \<and> payload_input (replay_payload p) = payload_input p
   \<and> eval_context (replay_payload p) = eval_context p"
    by (simp add: replay_payload_def)
  have b: "policyId p \<noteq> [] \<and> (isOffline st \<or> wants_offline p)
        \<longrightarrow> offlineQueue (snd (evaluate w p st)) = offlineQueue st @ [Evaluation p (clock w (wire st))]"
    using evaluate_offline[of p st w] enqueueOfflineEvent_effect by simp
  obtain r st1 where ev: "evaluate w (replay_payload p) st' = (r, st1)"
    by (cases "evaluate w (replay_payload p) st'")
  have rp: "replay w (Evaluation p c) st' = ((case r of Inl e \<Rightarrow> Inl e | Inr result \<Rightarrow> Inr ()), st1)"
    using ev by (cases r) (simp_all add: replay_def)
  have c: "snd (replay w (Evaluation p c) st') = snd (evaluate w (replay_payload p) st')"
    using ev rp by simp
  have d: "\<not> isOffline st'
        \<longrightarrow> offlineQueue (snd (replay w (Evaluation p c) st')) = offlineQueue st'
          \<and> (fst (replay w (Evaluation p c) st') = Inr ()
               \<longrightarrow> wire (snd (replay w (Evaluation p c) st')) \<noteq> []
                 \<and> body (last (wire (snd (replay w (Evaluation p c) st'))))
                     = Some (Payload_body (replay_payload p)))"
  proof
    assume off: "\<not> isOffline st'"
    from evaluate_online_effect[OF off replay_payload_not_offline ev] rp
    show "offlineQueue (snd (replay w (Evaluation p c) st')) = offlineQueue st'
          \<and> (fst (replay w (Evaluation p c) st') = Inr ()
               \<longrightarrow> wire (snd (replay w (Evaluation p c) st')) \<noteq> []
                 \<and> body (last (wire (snd (replay w (Evaluation p c) st'))))
                     = Some (Payload_body (replay_payload p)))"
      by (cases r) auto
  qed
  from a b c d show ?thesis by blast
qed

theorem replay_overrides_offline_witness:
  "offlineQueue (snd (evaluate reachable offline_payload (new_Governor DEFAULTS Map.empty)))
      = [Evaluation offline_payload 0]
   \<and> \<not> isOffline queued_state
   \<and> fst (replay reachable (Evaluation offline_payload 0) queued_state) = Inr ()
   \<and> offlineQueue (snd (replay reachable (Evaluation offline_payload 0) queued_state)) = []
   \<and> body (last (wire (snd (replay reachable (Evaluation offline_payload 0) queued_state))))
       = Some (Payload_body (offline_payload\<lparr>options := Some \<lparr>offline = Some False, audit = None\<rparr>\<rparr>))"
proof -
  have h1: "policyId offline_payload \<noteq> []
      \<and> (isOffline (new_Governor DEFAULTS Map.empty) \<or> wants_offline offline_payload)"
    by (simp add: offline_payload_def wants_offline_def)
  have h2: "\<not> isOffline queued_state"
    by (simp add: queued_state_def eval_defs offline_payload_def reachable_def)
  have q: "offlineQueue queued_state = []"
    by (simp add: queued_state_def)
  have h3: "fst (replay reachable (Evaluation offline_payload 0) queued_state) = Inr ()"
    by (simp add: queued_state_def eval_defs offline_payload_def reachable_def demo_pack_def demo_result_def)
  have c: "clock reachable (wire (new_Governor DEFAULTS Map.empty)) = 0"
    by (simp add: reachable_def new_Governor_def)
  have rp: "replay_payload offline_payload
       = offline_payload\<lparr>options := Some \<lparr>offline = Some False, audit = None\<rparr>\<rparr>"
    by (simp add: replay_payload_def offline_payload_def)
  note T = replay_overrides_offline[of offline_payload "new_Governor DEFAULTS Map.empty"
      reachable 0 queued_state]
  have q0: "offlineQueue (new_Governor DEFAULTS Map.empty) = []"
    by (simp add: new_Governor_def)
  from T h1 have "offlineQueue (snd (evaluate reachable offline_payload (new_Governor DEFAULTS Map.empty)))
      = offlineQueue (new_Governor DEFAULTS Map.empty)
        @ [Evaluation offline_payload (clock reachable (wire (new_Governor DEFAULTS Map.empty)))]"
    by blast
  then have f1: "offlineQueue (snd (evaluate reachable offline_payload (new_Governor DEFAULTS Map.empty)))
      = [Evaluation offline_payload 0]"
    unfolding q0 c by simp
  from T h2 h3
  have "offlineQueue (snd (replay reachable (Evaluation offline_payload 0) queued_state))
          = offlineQueue queued_state
      \<and> body (last (wire (snd (replay reachable (Evaluation offline_payload 0) queued_state))))
          = Some (Payload_body (replay_payload offline_payload))"
    by blast
  then have f2: "offlineQueue (snd (replay reachable (Evaluation offline_payload 0) queued_state)) = []
      \<and> body (last (wire (snd (replay reachable (Evaluation offline_payload 0) queued_state))))
          = Some (Payload_body (offline_payload\<lparr>options := Some \<lparr>offline = Some False, audit = None\<rparr>\<rparr>))"
    unfolding q rp by simp
  from f1 f2 h2 h3 show ?thesis by blast
qed

text \<open>
  Claim C2. In connected mode the drain returns, and it is the in-order delivery of the
  queue it started from: events leave the queue only from its head, one after the other; the
  first delivery that fails stops the drain with that error and is again the head of what is
  left, in front of every later event. So the queue afterwards is the original queue without
  its first \<open>n\<close> events, all \<open>n\<close> delivered, and \<open>n\<close> is the whole length exactly when the
  drain succeeds. In offline mode the operation returns at once and changes nothing.
\<close>

theorem flush_is_fifo:
  assumes "\<not> isOffline st"
  shows "drain w st = Some (deliver_in_order w (offlineQueue st) st)
       \<and> flushOfflineQueue w st
           = Some (case deliver_in_order w (offlineQueue st) st of
                     (Inl e, st1) \<Rightarrow> (Inl e, st1)
                   | (Inr u, st1) \<Rightarrow> (Inr (), persistOfflineQueue (clock w (wire st1)) st1))
       \<and> (\<exists>n. n \<le> length (offlineQueue st)
             \<and> offlineQueue (snd (deliver_in_order w (offlineQueue st) st)) = drop n (offlineQueue st)
             \<and> (case fst (deliver_in_order w (offlineQueue st) st) of
                   Inl e \<Rightarrow> n < length (offlineQueue st)
                 | Inr u \<Rightarrow> n = length (offlineQueue st)))
       \<and> (isOffline st_off \<longrightarrow> flushOfflineQueue w st_off = Some (Inr (), st_off))"
proof -
  let ?d = "deliver_in_order w (offlineQueue st) st"
  from drain_delivers[OF assms refl, of w] obtain n where
    d: "drain w st = Some ?d"
    and n: "n \<le> length (offlineQueue st)" "offlineQueue (snd ?d) = drop n (offlineQueue st)"
       "case fst ?d of Inl e \<Rightarrow> n < length (offlineQueue st)
          | Inr u \<Rightarrow> n = length (offlineQueue st) \<and> \<not> isOffline (snd ?d)"
    by blast
  have f: "flushOfflineQueue w st
           = Some (case ?d of (Inl e, st1) \<Rightarrow> (Inl e, st1)
                   | (Inr u, st1) \<Rightarrow> (Inr (), persistOfflineQueue (clock w (wire st1)) st1))"
    using assms d by (auto simp: flushOfflineQueue_def split: prod.splits sum.splits)
  have "case fst ?d of Inl e \<Rightarrow> n < length (offlineQueue st) | Inr u \<Rightarrow> n = length (offlineQueue st)"
    using n(3) by (cases "fst ?d") auto
  moreover have "isOffline st_off \<longrightarrow> flushOfflineQueue w st_off = Some (Inr (), st_off)"
    by (simp add: flushOfflineQueue_def)
  ultimately show ?thesis using d f n(1,2) by blast
qed

theorem flush_is_fifo_witness:
  "\<not> isOffline backlog
   \<and> flushOfflineQueue failing_once (setOfflineMode True backlog)
       = Some (Inr (), setOfflineMode True backlog)
   \<and> flushOfflineQueue failing_once backlog
       = Some (Inl (TimeoutError ''Request to https://api.aisentinel.ai/v1/policies timed out''),
               after_failed_flush)
   \<and> offlineQueue after_failed_flush = [update_a, update_b, update_c]
   \<and> \<not> isOffline after_failed_flush
   \<and> (\<exists>st2. flushOfflineQueue failing_once after_failed_flush = Some (Inr (), st2)
          \<and> offlineQueue st2 = []
          \<and> map body (wire st2)
              = map (\<lambda>ps. Some (Policies_body ps))
                  [[\<lparr>policy_id = ''a'', version = ''1'', rules = []\<rparr>],
                   [\<lparr>policy_id = ''a'', version = ''1'', rules = []\<rparr>],
                   [\<lparr>policy_id = ''b'', version = ''1'', rules = []\<rparr>],
                   [\<lparr>policy_id = ''c'', version = ''1'', rules = []\<rparr>]])"
proof -
  have h1: "\<not> isOffline backlog"
    by (simp add: backlog_def new_Governor_def DEFAULTS_def)
  have q1: "offlineQueue backlog = [update_a, update_b, update_c]"
    by (simp add: backlog_def)
  have d1: "fst (deliver_in_order failing_once [update_a, update_b, update_c] backlog)
           = Inl (TimeoutError ''Request to https://api.aisentinel.ai/v1/policies timed out'')"
    by (simp add: eval_defs failing_once_def reachable_def backlog_def update_a_def update_b_def
        update_c_def)
  have h0: "isOffline (setOfflineMode True backlog)"
    by (simp add: setOfflineMode_def)
  have f0: "flushOfflineQueue failing_once (setOfflineMode True backlog)
       = Some (Inr (), setOfflineMode True backlog)"
    using flush_is_fifo[OF h1, of failing_once "setOfflineMode True backlog"] h0 by blast
  have f1: "flushOfflineQueue failing_once backlog
       = Some (Inl (TimeoutError ''Request to https://api.aisentinel.ai/v1/policies timed out''),
               after_failed_flush)"
    using flush_is_fifo[OF h1, of failing_once] d1 unfolding q1 after_failed_flush_def
    by (cases "deliver_in_order failing_once [update_a, update_b, update_c] backlog") auto
  have q2: "offlineQueue after_failed_flush = [update_a, update_b, update_c]"
    by (simp add: after_failed_flush_def eval_defs failing_once_def reachable_def backlog_def
        update_a_def update_b_def update_c_def)
  have h2: "\<not> isOffline after_failed_flush"
    by (simp add: after_failed_flush_def eval_defs failing_once_def reachable_def backlog_def
        update_a_def update_b_def update_c_def)
  have d2: "fst (deliver_in_order failing_once [update_a, update_b, update_c] after_failed_flush) = Inr ()
      \<and> offlineQueue (snd (deliver_in_order failing_once [update_a, update_b, update_c] after_failed_flush)) = []
      \<and> map body (wire (snd (deliver_in_order failing_once [update_a, update_b, update_c] after_failed_flush)))
          = map (\<lambda>ps. Some (Policies_body ps))
                  [[\<lparr>policy_id = ''a'', version = ''1'', rules = []\<rparr>],
                   [\<lparr>policy_id = ''a'', version = ''1'', rules = []\<rparr>],
                   [\<lparr>policy_id = ''b'', version = ''1'', rules = []\<rparr>],
                   [\<lparr>policy_id = ''c'', version = ''1'', rules = []\<rparr>]]"
    by (simp add: after_failed_flush_def eval_defs failing_once_def reachable_def backlog_def
        update_a_def update_b_def update_c_def)
  have f2: "\<exists>st2. flushOfflineQueue failing_once after_failed_flush = Some (Inr (), st2)
          \<and> offlineQueue st2 = []
          \<and> map body (wire st2)
              = map (\<lambda>ps. Some (Policies_body ps))
                  [[\<lparr>policy_id = ''a'', version = ''1'', rules = []\<rparr>],
                   [\<lparr>policy_id = ''a'', version = ''1'', rules = []\<rparr>],
                   [\<lparr>policy_id = ''b'', version = ''1'', rules = []\<rparr>],
                   [\<lparr>policy_id = ''c'', version = ''1'', rules = []\<rparr>]]"
    using flush_is_fifo[OF h2, of failing_once] d2 unfolding q2
    by (cases "deliver_in_order failing_once [update_a, update_b, update_c] after_failed_flush")
       (auto simp: persistOfflineQueue_def)
  from h1 f0 f1 q2 h2 f2 show ?thesis by blast
qed

section \<open>Connectivity Mode\<close>

text \<open>
  What the retry controller does to the mode. A call that returns a response ends in
  connected mode; one that fails with a \<open>NetworkError\<close> ends in offline mode, and an attempt
  that fails with one, when attempts remain, hands the next attempt a state already in
  offline mode. An \<open>evaluate\<close> that fails with a \<open>NetworkError\<close> leaves the instance offline,
  and the next \<open>evaluate\<close> makes no request: with a policy identifier it appends its event to
  the queue and returns the decision \<open>review\<close>.
\<close>

lemma network_error_sets_offline:
  "(fst (requestWithRetry remote_a opts_a st_a) = Inr response
      \<longrightarrow> \<not> isOffline (snd (requestWithRetry remote_a opts_a st_a)))
   \<and> (fst (requestWithRetry remote_b opts_b st_b) = Inl e_b \<and> instanceof_NetworkError e_b
      \<longrightarrow> isOffline (snd (requestWithRetry remote_b opts_b st_b)))
   \<and> (int attempt + 1 < retries (retry (config st_c)) + 1
        \<and> httpRequest opts_c (remote_c (wire st_c) opts_c) = Inl (NetworkError m)
      \<longrightarrow> (\<exists>st1. isOffline st1
             \<and> requestWithRetry_loop remote_c opts_c attempt lastError st_c
                = requestWithRetry_loop remote_c opts_c (attempt + 1) (Some (NetworkError m)) st1))
   \<and> (fst (evaluate w payload st) = Inl e \<and> instanceof_NetworkError e
      \<longrightarrow> isOffline (snd (evaluate w payload st))
        \<and> wire (snd (evaluate w next_payload (snd (evaluate w payload st))))
            = wire (snd (evaluate w payload st))
        \<and> (policyId next_payload \<noteq> []
            \<longrightarrow> offlineQueue (snd (evaluate w next_payload (snd (evaluate w payload st))))
                  = offlineQueue (snd (evaluate w payload st))
                    @ [Evaluation next_payload (clock w (wire (snd (evaluate w payload st))))]
              \<and> (\<exists>result. fst (evaluate w next_payload (snd (evaluate w payload st))) = Inr result
                    \<and> res_decision result = Review)))"
proof -
  obtain ra sa where rqa: "requestWithRetry remote_a opts_a st_a = (ra, sa)"
    by (cases "requestWithRetry remote_a opts_a st_a")
  from requestWithRetry_effect[OF rqa] rqa
  have a: "fst (requestWithRetry remote_a opts_a st_a) = Inr response
      \<longrightarrow> \<not> isOffline (snd (requestWithRetry remote_a opts_a st_a))"
    by auto
  obtain rb sb where rqb: "requestWithRetry remote_b opts_b st_b = (rb, sb)"
    by (cases "requestWithRetry remote_b opts_b st_b")
  from requestWithRetry_effect[OF rqb] rqb
  have b: "fst (requestWithRetry remote_b opts_b st_b) = Inl e_b \<and> instanceof_NetworkError e_b
      \<longrightarrow> isOffline (snd (requestWithRetry remote_b opts_b st_b))"
    by auto
  have c: "int attempt + 1 < retries (retry (config st_c)) + 1
        \<and> httpRequest opts_c (remote_c (wire st_c) opts_c) = Inl (NetworkError m)
      \<longrightarrow> (\<exists>st1. isOffline st1
             \<and> requestWithRetry_loop remote_c opts_c attempt lastError st_c
                = requestWithRetry_loop remote_c opts_c (attempt + 1) (Some (NetworkError m)) st1)"
  proof
    assume h: "int attempt + 1 < retries (retry (config st_c)) + 1
        \<and> httpRequest opts_c (remote_c (wire st_c) opts_c) = Inl (NetworkError m)"
    from loop_unfold_retry[of attempt st_c opts_c remote_c "NetworkError m" lastError] h
    show "\<exists>st1. isOffline st1
             \<and> requestWithRetry_loop remote_c opts_c attempt lastError st_c
                = requestWithRetry_loop remote_c opts_c (attempt + 1) (Some (NetworkError m)) st1"
      by (intro exI[of _ "(setOfflineMode True (st_c\<lparr>wire := wire st_c @ [opts_c]\<rparr>))
            \<lparr>sleeps := sleeps st_c @ [exponentialBackoff attempt (retry (config st_c))]\<rparr>"])
         (simp add: setOfflineMode_def)
  qed
  have d: "fst (evaluate w payload st) = Inl e \<and> instanceof_NetworkError e
      \<longrightarrow> isOffline (snd (evaluate w payload st))
        \<and> wire (snd (evaluate w next_payload (snd (evaluate w payload st))))
            = wire (snd (evaluate w payload st))
        \<and> (policyId next_payload \<noteq> []
            \<longrightarrow> offlineQueue (snd (evaluate w next_payload (snd (evaluate w payload st))))
                  = offlineQueue (snd (evaluate w payload st))
                    @ [Evaluation next_payload (clock w (wire (snd (evaluate w payload st))))]
              \<and> (\<exists>result. fst (evaluate w next_payload (snd (evaluate w payload st))) = Inr result
                    \<and> res_decision result = Review))"
  proof
    assume h: "fst (evaluate w payload st) = Inl e \<and> instanceof_NetworkError e"
    obtain st2 where ev: "evaluate w payload st = (Inl e, st2)"
      using h by (cases "evaluate w payload st") auto
    have ne: "policyId payload \<noteq> []"
      using h by (auto simp: evaluate_def)
    have on: "\<not> isOffline st \<and> \<not> wants_offline payload"
      using evaluate_offline[OF ne, of st w] h by auto
    from evaluate_online_effect[OF _ _ ev] on h have off2: "isOffline st2" by auto
    have w2: "wire (snd (evaluate w next_payload st2)) = wire st2"
    proof (cases "policyId next_payload = []")
      case True
      then show ?thesis by (simp add: evaluate_def)
    next
      case False
      with evaluate_offline[OF False, of st2 w] off2 enqueueOfflineEvent_effect show ?thesis by auto
    qed
    have q2: "policyId next_payload \<noteq> []
            \<longrightarrow> offlineQueue (snd (evaluate w next_payload st2))
                  = offlineQueue st2 @ [Evaluation next_payload (clock w (wire st2))]
              \<and> (\<exists>result. fst (evaluate w next_payload st2) = Inr result
                    \<and> res_decision result = Review)"
      using evaluate_offline[of next_payload st2 w] off2 enqueueOfflineEvent_effect by auto
    from off2 w2 q2 ev
    show "isOffline (snd (evaluate w payload st))
        \<and> wire (snd (evaluate w next_payload (snd (evaluate w payload st))))
            = wire (snd (evaluate w payload st))
        \<and> (policyId next_payload \<noteq> []
            \<longrightarrow> offlineQueue (snd (evaluate w next_payload (snd (evaluate w payload st))))
                  = offlineQueue (snd (evaluate w payload st))
                    @ [Evaluation next_payload (clock w (wire (snd (evaluate w payload st))))]
              \<and> (\<exists>result. fst (evaluate w next_payload (snd (evaluate w payload st))) = Inr result
                    \<and> res_decision result = Review))"
      by simp
  qed
  from a b c d show ?thesis by blast
qed

text \<open>
  Claim C3 does not hold of the code for the failure it is about. \<open>httpRequest\<close> builds a
  \<open>NetworkError\<close> for a non-2xx answer and for a missing \<open>fetch\<close> only; when the network is
  down \<open>fetch\<close> rejects and the rejection is rethrown as it is, so the mode is never set.
  On a default instance, with every call of \<open>fetch\<close> rejecting: \<open>evaluate\<close> fails after four
  attempts and the instance is still connected; the next \<open>evaluate\<close> makes four more
  requests and queues nothing. Against a server that answers 503 the same two calls end
  offline, with the second queued and no further request.
\<close>

theorem rejected_fetch_leaves_instance_connected:
  "fst (evaluate cut_off plain_payload fresh) = Inl (RawError ''TypeError: fetch failed'')
   \<and> \<not> isOffline (snd (evaluate cut_off plain_payload fresh))
   \<and> length (wire (snd (evaluate cut_off plain_payload fresh))) = 4
   \<and> fst (evaluate cut_off plain_payload (snd (evaluate cut_off plain_payload fresh)))
       = Inl (RawError ''TypeError: fetch failed'')
   \<and> offlineQueue (snd (evaluate cut_off plain_payload (snd (evaluate cut_off plain_payload fresh))))
       = []
   \<and> length (wire (snd (evaluate cut_off plain_payload (snd (evaluate cut_off plain_payload fresh)))))
       = 8
   \<and> isOffline (snd (evaluate unreachable plain_payload fresh))
   \<and> offlineQueue (snd (evaluate unreachable plain_payload (snd (evaluate unreachable plain_payload fresh))))
       = [Evaluation plain_payload 4]
   \<and> length (wire (snd (evaluate unreachable plain_payload (snd (evaluate unreachable plain_payload fresh)))))
       = 4"
  by (simp add: eval_defs cut_off_def unreachable_def reachable_def plain_payload_def fresh_def)

section \<open>The audit log\<close>

lemma keep_last: "drop (length (drop (length xs - n) xs @ ys) - n) (drop (length xs - n) xs @ ys)
    = drop (length (xs @ ys) - n) (xs @ (ys::'a list))"
proof (cases "length xs \<le> n")
  case True
  then show ?thesis by simp
next
  case False
  then have "length (drop (length xs - n) xs @ ys) - n = length ys" by simp
  moreover have "length (xs @ ys) - n = length ys + (length xs - n)" using False by simp
  ultimately show ?thesis by (simp add: drop_append)
qed

lemma appendAll_log:
  "enableAuditLog (config st) \<Longrightarrow> calls \<noteq> []
   \<Longrightarrow> auditLog (appendAll calls st)
       = drop (length (auditLog st @ map snd calls) - 500) (auditLog st @ map snd calls)
     \<and> config (appendAll calls st) = config st"
proof (induction calls arbitrary: st rule: rev_induct)
  case Nil
  then show ?case by simp
next
  case (snoc c calls)
  show ?case
  proof (cases "calls = []")
    case True
    with snoc.prems show ?thesis
      using appendAuditRecord_effect[of "fst c" "snd c" st] by (simp add: appendAll_def)
  next
    case False
    from snoc.IH[OF snoc.prems(1) False]
    have ih: "auditLog (appendAll calls st)
       = drop (length (auditLog st @ map snd calls) - 500) (auditLog st @ map snd calls)"
      and cf: "config (appendAll calls st) = config st" by simp_all
    have st: "appendAll (calls @ [c]) st = appendAuditRecord (fst c) (snd c) (appendAll calls st)"
      by (simp add: appendAll_def)
    from appendAuditRecord_effect[of "fst c" "snd c" "appendAll calls st"] cf snoc.prems(1)
    have "auditLog (appendAll (calls @ [c]) st)
        = drop (length (auditLog (appendAll calls st) @ [snd c]) - 500)
            (auditLog (appendAll calls st) @ [snd c])"
      and c2: "config (appendAll (calls @ [c]) st) = config st"
      unfolding st by simp_all
    then have "auditLog (appendAll (calls @ [c]) st)
        = drop (length ((auditLog st @ map snd calls) @ [snd c]) - 500)
            ((auditLog st @ map snd calls) @ [snd c])"
      unfolding ih by (simp only: keep_last)
    with c2 show ?thesis by simp
  qed
qed

text \<open>
  Claim C9. With audit logging enabled, after more than 500 appends the log is the last 500
  appended records in append order, oldest first: the last 500 of everything the log ever
  held followed by the appended records.
\<close>

theorem audit_log_keeps_last_500:
  assumes "enableAuditLog (config st)" and "500 < length calls"
  shows "auditLog (appendAll calls st) = drop (length calls - 500) (map snd calls)
       \<and> length (auditLog (appendAll calls st)) = 500
       \<and> auditLog (appendAll calls st) = drop (length (auditLog st @ map snd calls) - 500) (auditLog st @ map snd calls)"
proof -
  from assms(2) have ne: "calls \<noteq> []" by auto
  from appendAll_log[OF assms(1) ne]
  have g: "auditLog (appendAll calls st)
       = drop (length (auditLog st @ map snd calls) - 500) (auditLog st @ map snd calls)" by simp
  have "length (auditLog st @ map snd calls) - 500 = length (auditLog st) + (length calls - 500)"
    using assms(2) by simp
  then have "drop (length (auditLog st @ map snd calls) - 500) (auditLog st @ map snd calls)
        = drop (length calls - 500) (map snd calls)"
    by (simp add: drop_append)
  with g assms(2) show ?thesis by simp
qed

theorem audit_log_keeps_last_500_witness:
  "auditLog (appendAll six_hundred (new_Governor DEFAULTS Map.empty)) = map numbered [100 ..< 600]
   \<and> length (auditLog (appendAll six_hundred (new_Governor DEFAULTS Map.empty))) = 500"
proof -
  have h1: "enableAuditLog (config (new_Governor DEFAULTS Map.empty))"
    by (simp add: new_Governor_def DEFAULTS_def)
  have h2: "500 < length six_hundred" by (simp add: six_hundred_def)
  have m: "map snd six_hundred = map numbered [0 ..< 600]"
    by (simp add: six_hundred_def comp_def)
  have d: "drop (length six_hundred - 500) (map numbered [0 ..< 600]) = map numbered [100 ..< 600]"
    by (simp add: six_hundred_def drop_map)
  from audit_log_keeps_last_500[OF h1 h2] show ?thesis unfolding m d by simp
qed

text \<open>
  Claim C10. An \<open>evaluate\<close> routed offline (the instance is offline, or the payload asks for
  it) leaves the audit log as it was. Whenever \<open>evaluate\<close> changes the log, the call went
  the online path with auditing enabled and succeeded, and the log is the bounded log with
  one record of action \<open>evaluate\<close> appended.
\<close>

theorem offline_route_leaves_audit_log:
  "(isOffline st \<or> wants_offline payload
      \<longrightarrow> auditLog (snd (evaluate w payload st)) = auditLog st)
   \<and> (auditLog (snd (evaluate w' payload' st')) \<noteq> auditLog st'
      \<longrightarrow> \<not> isOffline st' \<and> \<not> wants_offline payload' \<and> enableAuditLog (config st')
        \<and> (\<exists>result record. fst (evaluate w' payload' st') = Inr result
              \<and> action record = ''evaluate''
              \<and> auditLog (snd (evaluate w' payload' st'))
                  = drop (length (auditLog st' @ [record]) - 500) (auditLog st' @ [record])))"
proof -
  have a: "isOffline st \<or> wants_offline payload
      \<longrightarrow> auditLog (snd (evaluate w payload st)) = auditLog st"
  proof (cases "policyId payload = []")
    case True
    then show ?thesis by (simp add: evaluate_def)
  next
    case False
    with evaluate_offline[of payload st w] enqueueOfflineEvent_effect show ?thesis by auto
  qed
  have b: "auditLog (snd (evaluate w' payload' st')) \<noteq> auditLog st'
      \<longrightarrow> \<not> isOffline st' \<and> \<not> wants_offline payload' \<and> enableAuditLog (config st')
        \<and> (\<exists>result record. fst (evaluate w' payload' st') = Inr result
              \<and> action record = ''evaluate''
              \<and> auditLog (snd (evaluate w' payload' st'))
                  = drop (length (auditLog st' @ [record]) - 500) (auditLog st' @ [record]))"
  proof
    assume ch: "auditLog (snd (evaluate w' payload' st')) \<noteq> auditLog st'"
    have on: "\<not> (isOffline st' \<or> wants_offline payload')"
    proof
      assume o: "isOffline st' \<or> wants_offline payload'"
      show False
      proof (cases "policyId payload' = []")
        case True
        with ch show False by (simp add: evaluate_def)
      next
        case False
        with evaluate_offline[of payload' st' w'] o enqueueOfflineEvent_effect ch show False by auto
      qed
    qed
    obtain r st1 where ev: "evaluate w' payload' st' = (r, st1)"
      by (cases "evaluate w' payload' st'")
    from on have on1: "\<not> isOffline st'" and on2: "\<not> wants_offline payload'" by simp_all
    from evaluate_online_effect[OF on1 on2 ev] ch ev on1 on2
    show "\<not> isOffline st' \<and> \<not> wants_offline payload' \<and> enableAuditLog (config st')
        \<and> (\<exists>result record. fst (evaluate w' payload' st') = Inr result
              \<and> action record = ''evaluate''
              \<and> auditLog (snd (evaluate w' payload' st'))
                  = drop (length (auditLog st' @ [record]) - 500) (auditLog st' @ [record]))"
      by (cases r) (auto split: if_splits)
  qed
  from a b show ?thesis by blast
qed

theorem offline_route_leaves_audit_log_witness:
  "wants_offline offline_payload
   \<and> auditLog (snd (evaluate reachable offline_payload (new_Governor DEFAULTS Map.empty))) = []
   \<and> map action (auditLog (snd (evaluate reachable plain_payload (new_Governor DEFAULTS Map.empty))))
       = [''evaluate'']
   \<and> \<not> wants_offline plain_payload"
proof -
  have h1: "wants_offline offline_payload"
    by (simp add: wants_offline_def offline_payload_def)
  have a0: "auditLog (new_Governor DEFAULTS Map.empty) = []"
    by (simp add: new_Governor_def)
  have h2: "map action (auditLog (snd (evaluate reachable plain_payload (new_Governor DEFAULTS Map.empty))))
       = [''evaluate'']"
    by (simp add: eval_defs reachable_def plain_payload_def demo_pack_def demo_result_def)
  then have ch: "auditLog (snd (evaluate reachable plain_payload (new_Governor DEFAULTS Map.empty)))
       \<noteq> auditLog (new_Governor DEFAULTS Map.empty)"
    unfolding a0 by auto
  note T = offline_route_leaves_audit_log[of "new_Governor DEFAULTS Map.empty" offline_payload
      reachable reachable plain_payload "new_Governor DEFAULTS Map.empty"]
  from T h1 have "auditLog (snd (evaluate reachable offline_payload (new_Governor DEFAULTS Map.empty)))
       = auditLog (new_Governor DEFAULTS Map.empty)"
    by blast
  then have f1: "auditLog (snd (evaluate reachable offline_payload (new_Governor DEFAULTS Map.empty))) = []"
    unfolding a0 .
  from T ch have f2: "\<not> wants_offline plain_payload" by blast
  from h1 f1 h2 f2 show ?thesis by blast
qed

section \<open>The keyed cache and the rulepack index\<close>

text \<open>
  Claim C8, as the code has it. A \<open>get\<close> that finds no live record in the in-process tier and
  a value in the durable tier returns the value and stores it in the in-process tier with
  expiry \<open>now + ttlMs\<close>, whatever the durable entry's expiry. A later \<open>get\<close> of the key at a
  time before that expiry (at once when \<open>ttlMs\<close> is positive) is served by the in-process
  tier: it returns the value whatever the durable tier holds, and leaves it untouched.
\<close>

theorem durable_read_renews_ttl:
  assumes "\<not> memory_hit t key c"
    and "fst (getItem prefix t (namespace c @ '':'' @ key) s) = Some v"
  shows "fst (cache_get prefix t key (c, s)) = Some v
       \<and> memory (fst (snd (cache_get prefix t key (c, s)))) key
           = Some \<lparr>entry_value = v, expiresAt = At (t + ttlMs c)\<rparr>
       \<and> (t' < t + ttlMs c
            \<longrightarrow> memory_hit t' key (fst (snd (cache_get prefix t key (c, s))))
              \<and> fst (cache_get prefix t' key (fst (snd (cache_get prefix t key (c, s))), s')) = Some v
              \<and> snd (snd (cache_get prefix t' key (fst (snd (cache_get prefix t key (c, s))), s'))) = s')"
  using assms
  by (auto simp: cache_get_def promote_def memory_hit_def cache_isExpired_def Let_def
      split: option.splits prod.splits if_splits)

theorem durable_read_renews_ttl_witness:
  "fst (cache_get ''aisentinel'' 5 ''k'' (long_ttl_cache, durable_only)) = Some ''bundle''
   \<and> memory (fst (snd (cache_get ''aisentinel'' 5 ''k'' (long_ttl_cache, durable_only)))) ''k''
       = Some \<lparr>entry_value = ''bundle'', expiresAt = At 300005\<rparr>
   \<and> memory_hit 5 ''k'' (fst (snd (cache_get ''aisentinel'' 5 ''k'' (long_ttl_cache, durable_only))))
   \<and> fst (cache_get ''aisentinel'' 5 ''k''
            (fst (snd (cache_get ''aisentinel'' 5 ''k'' (long_ttl_cache, durable_only))), Map.empty))
       = Some ''bundle''"
proof -
  have h1: "\<not> memory_hit 5 ''k'' long_ttl_cache"
    by (simp add: memory_hit_def long_ttl_cache_def zero_ttl_cache_def)
  have h2: "fst (getItem ''aisentinel'' 5 (namespace long_ttl_cache @ '':'' @ ''k'') durable_only)
            = Some ''bundle''"
    by (simp add: getItem_def getPrefixedKey_def long_ttl_cache_def zero_ttl_cache_def
        durable_only_def storage_isExpired_def)
  have h3: "(5::int) < 5 + ttlMs long_ttl_cache"
    by (simp add: long_ttl_cache_def zero_ttl_cache_def)
  have t: "5 + ttlMs long_ttl_cache = 300005"
    by (simp add: long_ttl_cache_def zero_ttl_cache_def)
  from durable_read_renews_ttl[OF h1 h2, of 5 Map.empty] h3 show ?thesis
    unfolding t by blast
qed

text \<open>
  Claim C8 as stated fails when the configured TTL is zero: the promoted record expires at
  \<open>now\<close>, which \<open>isExpired\<close> counts as expired, so an immediate second \<open>get\<close> finds it stale
  and goes to the durable tier again.
\<close>

theorem zero_ttl_second_get_misses_memory:
  "fst (cache_get ''aisentinel'' 5 ''k'' (zero_ttl_cache, durable_only)) = Some ''bundle''
   \<and> memory (fst (snd (cache_get ''aisentinel'' 5 ''k'' (zero_ttl_cache, durable_only)))) ''k''
       = Some \<lparr>entry_value = ''bundle'', expiresAt = At 5\<rparr>
   \<and> \<not> memory_hit 5 ''k'' (fst (snd (cache_get ''aisentinel'' 5 ''k'' (zero_ttl_cache, durable_only))))
   \<and> stale (metrics (fst (snd (cache_get ''aisentinel'' 5 ''k''
        (snd (cache_get ''aisentinel'' 5 ''k'' (zero_ttl_cache, durable_only))))))) = 1
   \<and> fst (cache_get ''aisentinel'' 5 ''k''
            (fst (snd (cache_get ''aisentinel'' 5 ''k'' (zero_ttl_cache, durable_only))), Map.empty))
       = None"
  by (simp add: cache_get_def promote_def memory_hit_def cache_isExpired_def Let_def
      zero_ttl_cache_def durable_only_def getItem_def getPrefixedKey_def storage_isExpired_def)

lemma cacheRulepack_effect:
  "rulepackIndex (cacheRulepack w t policy pack st)
      = (rulepackIndex st)(policy \<mapsto> hashString w (policy @ '':'' @ checksum pack))
   \<and> memory (rulepackCache (cacheRulepack w t policy pack st))
      = (memory (rulepackCache st))(hashString w (policy @ '':'' @ checksum pack) \<mapsto>
           \<lparr>entry_value = Pack pack, expiresAt = At (t + rulepack_life st pack)\<rparr>)"
  by (simp add: cacheRulepack_def cache_set_def createRulepackCacheKey_def Let_def)

text \<open>
  Claim C6. The cache key is the hash of \<open>policyId:checksum\<close>. After the same policy was
  cached with two rulepacks, the index points at the key of the second and the cache holds
  the second under it; when the two keys differ the cache still holds the first under its
  own key. Before the second entry expires, looking the policy up, and \<open>loadRulepack\<close>
  without refresh, return the second rulepack.
\<close>

theorem content_addressed_rulepacks:
  "createRulepackCacheKey (hashString w) p (checksum r2) = hashString w (p @ '':'' @ checksum r2)
   \<and> rulepackIndex (cacheRulepack w t2 p r2 (cacheRulepack w t1 p r1 st)) p
       = Some (createRulepackCacheKey (hashString w) p (checksum r2))
   \<and> memory (rulepackCache (cacheRulepack w t2 p r2 (cacheRulepack w t1 p r1 st)))
        (createRulepackCacheKey (hashString w) p (checksum r2))
       = Some \<lparr>entry_value = Pack r2, expiresAt = At (t2 + rulepack_life st r2)\<rparr>
   \<and> (createRulepackCacheKey (hashString w) p (checksum r1)
         \<noteq> createRulepackCacheKey (hashString w) p (checksum r2)
       \<longrightarrow> memory (rulepackCache (cacheRulepack w t2 p r2 (cacheRulepack w t1 p r1 st)))
             (createRulepackCacheKey (hashString w) p (checksum r1))
            = Some \<lparr>entry_value = Pack r1, expiresAt = At (t1 + rulepack_life st r1)\<rparr>)
   \<and> (createRulepackCacheKey (hashString w) p (checksum r2) \<noteq> [] \<and> t3 < t2 + rulepack_life st r2
       \<longrightarrow> fst (getCachedRulepack t3 p (cacheRulepack w t2 p r2 (cacheRulepack w t1 p r1 st)))
            = Some (Pack r2))
   \<and> (p \<noteq> [] \<and> createRulepackCacheKey (hashString w) p (checksum r2) \<noteq> []
        \<and> clock w (wire st) < t2 + rulepack_life st r2
       \<longrightarrow> fst (loadRulepack w p False (cacheRulepack w t2 p r2 (cacheRulepack w t1 p r1 st)))
            = Inr (Some (Pack r2)))"
proof -
  let ?st1 = "cacheRulepack w t1 p r1 st"
  let ?st2 = "cacheRulepack w t2 p r2 ?st1"
  let ?k1 = "createRulepackCacheKey (hashString w) p (checksum r1)"
  let ?k2 = "createRulepackCacheKey (hashString w) p (checksum r2)"
  have life: "rulepack_life ?st1 r2 = rulepack_life st r2"
    using cacheRulepack_frame[of w t1 p r1 st] by (simp add: rulepack_life_def split: option.splits)
  have k: "?k2 = hashString w (p @ '':'' @ checksum r2)" "?k1 = hashString w (p @ '':'' @ checksum r1)"
    by (simp_all add: createRulepackCacheKey_def)
  have ix: "rulepackIndex ?st2 p = Some ?k2"
    using cacheRulepack_effect[of w t2 p r2 ?st1] by (simp add: k)
  have m2: "memory (rulepackCache ?st2) ?k2
       = Some \<lparr>entry_value = Pack r2, expiresAt = At (t2 + rulepack_life st r2)\<rparr>"
    using cacheRulepack_effect[of w t2 p r2 ?st1] by (simp add: k life)
  have m1: "?k1 \<noteq> ?k2 \<longrightarrow> memory (rulepackCache ?st2) ?k1
            = Some \<lparr>entry_value = Pack r1, expiresAt = At (t1 + rulepack_life st r1)\<rparr>"
    using cacheRulepack_effect[of w t2 p r2 ?st1] cacheRulepack_effect[of w t1 p r1 st]
    by (simp add: k)
  have g: "?k2 \<noteq> [] \<and> t < t2 + rulepack_life st r2
       \<longrightarrow> getCachedRulepack t p ?st2
           = (Some (Pack r2), ?st2\<lparr>rulepackCache := (rulepackCache ?st2)\<lparr>metrics :=
                (metrics (rulepackCache ?st2))\<lparr>hits := hits (metrics (rulepackCache ?st2)) + 1\<rparr>\<rparr>\<rparr>)" for t
    using ix m2
    by (auto simp: getCachedRulepack_def cache_get_def cache_isExpired_def Let_def)
  have w2: "wire ?st2 = wire st"
    using cacheRulepack_frame[of w t2 p r2 ?st1] cacheRulepack_frame[of w t1 p r1 st] by simp
  have l: "p \<noteq> [] \<and> ?k2 \<noteq> [] \<and> clock w (wire st) < t2 + rulepack_life st r2
       \<longrightarrow> fst (loadRulepack w p False ?st2) = Inr (Some (Pack r2))"
    using g[of "clock w (wire st)"] by (auto simp: loadRulepack_def Let_def w2)
  from k(1) ix m2 m1 g[of t3] l show ?thesis by simp
qed

theorem content_addressed_rulepacks_witness:
  "rulepackIndex cached_twice ''p1'' = Some ''p1:c2''
   \<and> memory (rulepackCache cached_twice) ''p1:c1''
       = Some \<lparr>entry_value = Pack demo_pack, expiresAt = At 300000\<rparr>
   \<and> memory (rulepackCache cached_twice) ''p1:c2''
       = Some \<lparr>entry_value = Pack newer_pack, expiresAt = At 300010\<rparr>
   \<and> fst (getCachedRulepack 10 ''p1'' cached_twice) = Some (Pack newer_pack)
   \<and> fst (loadRulepack reachable ''p1'' False cached_twice) = Inr (Some (Pack newer_pack))"
proof -
  have k1: "createRulepackCacheKey (hashString reachable) ''p1'' (checksum demo_pack) = ''p1:c1''"
    by (simp add: createRulepackCacheKey_def reachable_def demo_pack_def)
  have k2: "createRulepackCacheKey (hashString reachable) ''p1'' (checksum newer_pack) = ''p1:c2''"
    by (simp add: createRulepackCacheKey_def reachable_def demo_pack_def newer_pack_def)
  have l1: "rulepack_life (new_Governor DEFAULTS Map.empty) demo_pack = 300000"
    by (simp add: rulepack_life_def new_Governor_def DEFAULTS_def demo_pack_def)
  have l2: "rulepack_life (new_Governor DEFAULTS Map.empty) newer_pack = 300000"
    by (simp add: rulepack_life_def new_Governor_def DEFAULTS_def demo_pack_def newer_pack_def)
  have c: "clock reachable (wire (new_Governor DEFAULTS Map.empty)) = 0"
    by (simp add: reachable_def new_Governor_def)
  note T = content_addressed_rulepacks[of reachable "''p1''" newer_pack 10 0 demo_pack
      "new_Governor DEFAULTS Map.empty" 10, folded cached_twice_def, unfolded k1 k2 l1 l2 c]
  have d: "''p1:c1'' \<noteq> ''p1:c2''" by simp
  have n: "''p1:c2'' \<noteq> []" "(10::int) < 10 + 300000" "''p1'' \<noteq> []" "(0::int) < 10 + 300000"
    by simp_all
  from T[THEN conjunct2] d n show ?thesis by simp
qed

section \<open>Errors that reach the caller\<close>






end
